theory Spec2Isabelle
  imports Main "HOL-Library.Word"
begin

text \<open>
  A shallow embedding of the eventing producer/consumer supervision layer: the IPC frame
  builders (consumer, protocol file), the vbucket planner
  (producer/vbucket\_node\_assignment.go), vbucket takeover and give-up
  (consumer/vbucket\_takeover.go) and the settings loader (\<^verbatim>\<open>parseDepcfg\<close>).

  Conventions. Go \<^verbatim>\<open>uint16\<close>, \<^verbatim>\<open>int32\<close>, \<^verbatim>\<open>uint64\<close> \<open>\<dots>\<close> are words of that width; a Go \<^verbatim>\<open>int\<close>
  whose narrowing matters is a \<^typ>\<open>64 word\<close>; counts and indices that the code only
  increments are \<^typ>\<open>nat\<close>. Go strings and byte slices are \<^typ>\<open>string\<close>. A Go \<^verbatim>\<open>map\<close> is
  a HOL map; reading a missing key gives the zero value, written out at each read.
  Logging and sleeping are left out. The first part of the file holds the definitions,
  the second part the proofs.
\<close>

section \<open>Shared vocabulary\<close>

type_synonym vbno = "16 word"
type_synonym seqno = "64 word"

text \<open>\<^verbatim>\<open>strconv.Itoa\<close> and the \<^verbatim>\<open>%d\<close>/\<^verbatim>\<open>%v\<close> verbs on a non-negative integer: decimal digits,
  most significant first, no padding.\<close>

definition digit :: "nat \<Rightarrow> char" where
  "digit d = ''0123456789'' ! d"

fun Itoa :: "nat \<Rightarrow> string" where
  "Itoa n = (if n < 10 then [digit n] else Itoa (n div 10) @ [digit (n mod 10)])"

declare Itoa.simps [simp del]

section \<open>IPC frames (consumer protocol file)\<close>

subsection \<open>The table codec\<close>

text \<open>
  Modelled from the spec: the table builder (\<^verbatim>\<open>flatbuffers.Builder\<close>) and the generated
  packages \<^verbatim>\<open>header\<close> and \<^verbatim>\<open>payload\<close> (\<^verbatim>\<open>HeaderAddEvent\<close>, \<^verbatim>\<open>PayloadAddKey\<close>, \<open>\<dots>\<close>, and the
  accessors \<^verbatim>\<open>Event()\<close>, \<^verbatim>\<open>Key()\<close>, \<open>\<dots>\<close>) are not among the sources. The spec describes a
  frame as a table of typed fields, \<^verbatim>\<open>Header { event:int8, opcode:int8, partition:int16,
  metadata:string }\<close> and a payload table that is a superset with the fields of each variant
  populated. The model keeps exactly that: a finished frame is a store of objects
  (strings, vectors, tables) and the position of the root table; a table holds, per field
  name, a scalar or the position of another object. An \<^verbatim>\<open>Add\<close> call stores a field unless
  the value is the field's default; an accessor returns the stored value or the default.
  \<^verbatim>\<open>Prepend\<close> puts an element in front of the vector under construction. The byte layout
  is left out.
\<close>

datatype fbValue =
    FBInt8 "8 word" | FBByte "8 word" | FBInt16 "16 word" | FBUint16 "16 word"
  | FBInt32 "32 word" | FBInt64 "64 word" | FBOffset nat

datatype fbObject = FBString string | FBVector "fbValue list" | FBTable "(string \<times> fbValue) list"

record Builder =
  objects :: "fbObject list"
  slots :: "(string \<times> fbValue) list"
  elems :: "fbValue list"

record Frame =
  frameObjects :: "fbObject list"
  frameRoot :: nat

definition getBuilder :: Builder where
  "getBuilder = \<lparr>objects = [], slots = [], elems = []\<rparr>"

definition CreateString :: "Builder \<Rightarrow> string \<Rightarrow> nat \<times> Builder" where
  "CreateString b s = (Suc (length (objects b)), b\<lparr>objects := objects b @ [FBString s]\<rparr>)"

definition StartObject :: "Builder \<Rightarrow> Builder" where
  "StartObject b = b\<lparr>slots := []\<rparr>"

definition PrependSlot :: "Builder \<Rightarrow> string \<Rightarrow> fbValue \<Rightarrow> fbValue \<Rightarrow> Builder" where
  "PrependSlot b field x d = (if x = d then b else b\<lparr>slots := (field, x) # slots b\<rparr>)"

definition EndObject :: "Builder \<Rightarrow> nat \<times> Builder" where
  "EndObject b =
     (Suc (length (objects b)), b\<lparr>objects := objects b @ [FBTable (slots b)], slots := []\<rparr>)"

definition StartVector :: "Builder \<Rightarrow> Builder" where
  "StartVector b = b\<lparr>elems := []\<rparr>"

definition Prepend :: "Builder \<Rightarrow> fbValue \<Rightarrow> Builder" where
  "Prepend b x = b\<lparr>elems := x # elems b\<rparr>"

definition EndVector :: "Builder \<Rightarrow> nat \<times> Builder" where
  "EndVector b =
     (Suc (length (objects b)), b\<lparr>objects := objects b @ [FBVector (elems b)], elems := []\<rparr>)"

definition Finish :: "Builder \<Rightarrow> nat \<Rightarrow> Frame" where
  "Finish b rootTable = \<lparr>frameObjects = objects b, frameRoot = rootTable\<rparr>"

definition objectAt :: "Frame \<Rightarrow> nat \<Rightarrow> fbObject option" where
  "objectAt buf off =
     (if 0 < off \<and> off \<le> length (frameObjects buf)
      then Some (frameObjects buf ! (off - 1)) else None)"

definition tableAt :: "Frame \<Rightarrow> nat \<Rightarrow> (string \<times> fbValue) list" where
  "tableAt buf off = (case objectAt buf off of Some (FBTable t) \<Rightarrow> t | _ \<Rightarrow> [])"

definition GetRootAs :: "Frame \<Rightarrow> (string \<times> fbValue) list" where
  "GetRootAs buf = tableAt buf (frameRoot buf)"

definition fieldInt8 :: "(string \<times> fbValue) list \<Rightarrow> string \<Rightarrow> 8 word" where
  "fieldInt8 t field = (case map_of t field of Some (FBInt8 x) \<Rightarrow> x | _ \<Rightarrow> 0)"

definition fieldByte :: "(string \<times> fbValue) list \<Rightarrow> string \<Rightarrow> 8 word" where
  "fieldByte t field = (case map_of t field of Some (FBByte x) \<Rightarrow> x | _ \<Rightarrow> 0)"

definition fieldInt16 :: "(string \<times> fbValue) list \<Rightarrow> string \<Rightarrow> 16 word" where
  "fieldInt16 t field = (case map_of t field of Some (FBInt16 x) \<Rightarrow> x | _ \<Rightarrow> 0)"

definition fieldInt32 :: "(string \<times> fbValue) list \<Rightarrow> string \<Rightarrow> 32 word" where
  "fieldInt32 t field = (case map_of t field of Some (FBInt32 x) \<Rightarrow> x | _ \<Rightarrow> 0)"

definition fieldInt64 :: "(string \<times> fbValue) list \<Rightarrow> string \<Rightarrow> 64 word" where
  "fieldInt64 t field = (case map_of t field of Some (FBInt64 x) \<Rightarrow> x | _ \<Rightarrow> 0)"

definition fieldString :: "Frame \<Rightarrow> (string \<times> fbValue) list \<Rightarrow> string \<Rightarrow> string" where
  "fieldString buf t field =
     (case map_of t field of
        Some (FBOffset off) \<Rightarrow> (case objectAt buf off of Some (FBString s) \<Rightarrow> s | _ \<Rightarrow> [])
      | _ \<Rightarrow> [])"

definition fieldVector :: "Frame \<Rightarrow> (string \<times> fbValue) list \<Rightarrow> string \<Rightarrow> fbValue list" where
  "fieldVector buf t field =
     (case map_of t field of
        Some (FBOffset off) \<Rightarrow> (case objectAt buf off of Some (FBVector xs) \<Rightarrow> xs | _ \<Rightarrow> [])
      | _ \<Rightarrow> [])"

subsection \<open>The frame builders of the source\<close>

text \<open>\<^verbatim>\<open>makeHeader\<close>: every other header builder of the file (\<^verbatim>\<open>makeDcpMutationHeader\<close>,
  \<^verbatim>\<open>makeV8InitOpcodeHeader\<close>, \<open>\<dots>\<close>) calls it with constant event and opcode tags.\<close>

definition makeHeader :: "8 word \<Rightarrow> 8 word \<Rightarrow> 16 word \<Rightarrow> string \<Rightarrow> Frame" where
  "makeHeader event opcode partn meta =
     (let builder = getBuilder;
          (metadata, builder) = CreateString builder meta;
          builder = StartObject builder;
          builder = PrependSlot builder ''event'' (FBInt8 event) (FBInt8 0);
          builder = PrependSlot builder ''opcode'' (FBInt8 opcode) (FBInt8 0);
          builder = PrependSlot builder ''partition'' (FBInt16 partn) (FBInt16 0);
          builder = PrependSlot builder ''metadata'' (FBOffset metadata) (FBOffset 0);
          (headerPos, builder) = EndObject builder
      in Finish builder headerPos)"

text \<open>\<^verbatim>\<open>readHeader\<close> returns the event and logs opcode and metadata; \<open>decodeHeader\<close> reads all
  four fields through the same accessors.\<close>

definition readHeader :: "Frame \<Rightarrow> 8 word" where
  "readHeader buf = fieldInt8 (GetRootAs buf) ''event''"

definition decodeHeader :: "Frame \<Rightarrow> 8 word \<times> 8 word \<times> 16 word \<times> string" where
  "decodeHeader buf =
     (let headerPos = GetRootAs buf
      in (fieldInt8 headerPos ''event'', fieldInt8 headerPos ''opcode'',
          fieldInt16 headerPos ''partition'', fieldString buf headerPos ''metadata''))"

definition makeDcpPayload :: "string \<Rightarrow> string \<Rightarrow> Frame" where
  "makeDcpPayload key val =
     (let builder = getBuilder;
          (keyPos, builder) = CreateString builder key;
          (valPos, builder) = CreateString builder val;
          builder = StartObject builder;
          builder = PrependSlot builder ''key'' (FBOffset keyPos) (FBOffset 0);
          builder = PrependSlot builder ''value'' (FBOffset valPos) (FBOffset 0);
          (payloadPos, builder) = EndObject builder
      in Finish builder payloadPos)"

definition readPayload :: "Frame \<Rightarrow> string \<times> string" where
  "readPayload buf =
     (let payloadPos = GetRootAs buf
      in (fieldString buf payloadPos ''key'', fieldString buf payloadPos ''value''))"

definition makeDocTimerPayload :: "string \<Rightarrow> string \<Rightarrow> Frame" where
  "makeDocTimerPayload docID callbackFn =
     (let builder = getBuilder;
          (docIDPos, builder) = CreateString builder docID;
          (callbackFnPos, builder) = CreateString builder callbackFn;
          builder = StartObject builder;
          builder = PrependSlot builder ''docId'' (FBOffset docIDPos) (FBOffset 0);
          builder = PrependSlot builder ''callbackFn'' (FBOffset callbackFnPos) (FBOffset 0);
          (payloadPos, builder) = EndObject builder
      in Finish builder payloadPos)"

definition decodeDocTimer :: "Frame \<Rightarrow> string \<times> string" where
  "decodeDocTimer buf =
     (let payloadPos = GetRootAs buf
      in (fieldString buf payloadPos ''docId'', fieldString buf payloadPos ''callbackFn''))"

definition makeNonDocTimerPayload :: "string \<Rightarrow> Frame" where
  "makeNonDocTimerPayload data =
     (let builder = getBuilder;
          (pPos, builder) = CreateString builder data;
          builder = StartObject builder;
          builder = PrependSlot builder ''docIdsCallbackFns'' (FBOffset pPos) (FBOffset 0);
          (payloadPos, builder) = EndObject builder
      in Finish builder payloadPos)"

definition decodeNonDocTimer :: "Frame \<Rightarrow> string" where
  "decodeNonDocTimer buf = fieldString buf (GetRootAs buf) ''docIdsCallbackFns''"

text \<open>\<^verbatim>\<open>makeThrMapPayload\<close>. The Go map \<^verbatim>\<open>thrMap\<close> is an association list with distinct keys;
  \<^verbatim>\<open>thrMap[i]\<close> on a missing key is the nil slice. The loop over \<open>j\<close> prepends the partitions
  in ascending index order, the loop over the finished thread tables runs from the last
  index down.\<close>

definition thrMapAt :: "(int \<times> vbno list) list \<Rightarrow> nat \<Rightarrow> vbno list" where
  "thrMapAt thrMap i = (case map_of thrMap (int i) of None \<Rightarrow> [] | Some ps \<Rightarrow> ps)"

definition makeVbsThreadMap :: "Builder \<Rightarrow> vbno list \<Rightarrow> nat \<Rightarrow> nat \<times> Builder" where
  "makeVbsThreadMap builder ps i =
     (let builder = StartVector builder;
          builder = fold (\<lambda>j b. Prepend b (FBUint16 (ps ! j))) [0..<length ps] builder;
          (partitions, builder) = EndVector builder;
          builder = StartObject builder;
          builder = PrependSlot builder ''partitions'' (FBOffset partitions) (FBOffset 0);
          builder = PrependSlot builder ''threadID'' (FBInt16 (word_of_nat i)) (FBInt16 0)
      in EndObject builder)"

definition makeThrMapPayload :: "(int \<times> vbno list) list \<Rightarrow> 64 word \<Rightarrow> Frame" where
  "makeThrMapPayload thrMap partitionCount =
     (let builder = getBuilder;
          (tMaps, builder) =
             fold (\<lambda>i (tMaps, builder).
                     case makeVbsThreadMap builder (thrMapAt thrMap i) i of
                       (tMap, builder) \<Rightarrow> (tMaps @ [tMap], builder))
                  [0..<length thrMap] ([], builder);
          builder = StartVector builder;
          builder = fold (\<lambda>i b. Prepend b (FBOffset (tMaps ! i))) (rev [0..<length tMaps]) builder;
          (resMap, builder) = EndVector builder;
          builder = StartObject builder;
          builder = PrependSlot builder ''thrMap'' (FBOffset resMap) (FBOffset 0);
          builder = PrependSlot builder ''partitionCount'' (FBInt16 (ucast partitionCount)) (FBInt16 0);
          (payloadPos, builder) = EndObject builder
      in Finish builder payloadPos)"

definition decodeVbsThreadMap :: "Frame \<Rightarrow> fbValue \<Rightarrow> 16 word \<times> vbno list" where
  "decodeVbsThreadMap buf v =
     (case v of
        FBOffset off \<Rightarrow>
          (let t = tableAt buf off
           in (fieldInt16 t ''threadID'',
               concat (map (\<lambda>x. case x of FBUint16 p \<Rightarrow> [p] | _ \<Rightarrow> [])
                         (fieldVector buf t ''partitions''))))
      | _ \<Rightarrow> (0, []))"

definition decodeThrMap :: "Frame \<Rightarrow> (16 word \<times> vbno list) list \<times> 16 word" where
  "decodeThrMap buf =
     (let t = GetRootAs buf
      in (map (decodeVbsThreadMap buf) (fieldVector buf t ''thrMap''),
          fieldInt16 t ''partitionCount''))"

text \<open>\<^verbatim>\<open>makeV8InitPayload\<close>. \<^verbatim>\<open>flatbuffers.WriteBool\<close> stores 1 for true and 0 for false; the
  four Go \<^verbatim>\<open>int\<close> arguments are narrowed by \<^verbatim>\<open>int32(...)\<close>, which keeps the low 32 bits.\<close>

definition WriteBool :: "bool \<Rightarrow> 8 word" where
  "WriteBool b = (if b then 1 else 0)"

definition makeV8InitPayload ::
  "string \<Rightarrow> string \<Rightarrow> string \<Rightarrow> string \<Rightarrow> string \<Rightarrow> string \<Rightarrow> string \<Rightarrow> string
     \<Rightarrow> 64 word \<Rightarrow> 64 word \<Rightarrow> 64 word \<Rightarrow> 64 word \<Rightarrow> bool \<Rightarrow> bool \<Rightarrow> 64 word \<Rightarrow> Frame" where
  "makeV8InitPayload appName currHost eventingDir eventingPort kvHostPort depCfg rbacUser rbacPass
       capacity executionTimeout fuzzOffset checkpointInterval enableRecursiveMutation
       skipLcbBootstrap curlTimeout =
     (let builder = getBuilder;
          (app, builder) = CreateString builder appName;
          (ch, builder) = CreateString builder currHost;
          (ed, builder) = CreateString builder eventingDir;
          (ep, builder) = CreateString builder eventingPort;
          (dcfg, builder) = CreateString builder depCfg;
          (khp, builder) = CreateString builder kvHostPort;
          (rUser, builder) = CreateString builder rbacUser;
          (rPass, builder) = CreateString builder rbacPass;
          rec = WriteBool enableRecursiveMutation;
          lcb = WriteBool skipLcbBootstrap;
          builder = StartObject builder;
          builder = PrependSlot builder ''appName'' (FBOffset app) (FBOffset 0);
          builder = PrependSlot builder ''currHost'' (FBOffset ch) (FBOffset 0);
          builder = PrependSlot builder ''eventingDir'' (FBOffset ed) (FBOffset 0);
          builder = PrependSlot builder ''currEventingPort'' (FBOffset ep) (FBOffset 0);
          builder = PrependSlot builder ''depcfg'' (FBOffset dcfg) (FBOffset 0);
          builder = PrependSlot builder ''kvHostPort'' (FBOffset khp) (FBOffset 0);
          builder = PrependSlot builder ''rbacUser'' (FBOffset rUser) (FBOffset 0);
          builder = PrependSlot builder ''rbacPass'' (FBOffset rPass) (FBOffset 0);
          builder = PrependSlot builder ''lcbInstCapacity'' (FBInt32 (ucast capacity)) (FBInt32 0);
          builder = PrependSlot builder ''executionTimeout'' (FBInt32 (ucast executionTimeout)) (FBInt32 0);
          builder = PrependSlot builder ''fuzzOffset'' (FBInt32 (ucast fuzzOffset)) (FBInt32 0);
          builder = PrependSlot builder ''checkpointInterval'' (FBInt32 (ucast checkpointInterval)) (FBInt32 0);
          builder = PrependSlot builder ''curlTimeout'' (FBInt64 curlTimeout) (FBInt64 0);
          builder = PrependSlot builder ''enableRecursiveMutation'' (FBByte rec) (FBByte 0);
          builder = PrependSlot builder ''skipLcbBootstrap'' (FBByte lcb) (FBByte 0);
          (msgPos, builder) = EndObject builder
      in Finish builder msgPos)"

definition decodeV8InitStrings :: "Frame \<Rightarrow> string list" where
  "decodeV8InitStrings buf =
     map (fieldString buf (GetRootAs buf))
       [''appName'', ''currHost'', ''eventingDir'', ''currEventingPort'', ''kvHostPort'',
        ''depcfg'', ''rbacUser'', ''rbacPass'']"

definition decodeV8InitInts :: "Frame \<Rightarrow> 32 word list" where
  "decodeV8InitInts buf =
     map (fieldInt32 (GetRootAs buf))
       [''lcbInstCapacity'', ''executionTimeout'', ''fuzzOffset'', ''checkpointInterval'']"

definition decodeV8InitFlags :: "Frame \<Rightarrow> 64 word \<times> bool \<times> bool" where
  "decodeV8InitFlags buf =
     (let t = GetRootAs buf
      in (fieldInt64 t ''curlTimeout'', fieldByte t ''enableRecursiveMutation'' \<noteq> 0,
          fieldByte t ''skipLcbBootstrap'' \<noteq> 0))"

section \<open>Planner (producer/vbucket\_node\_assignment.go)\<close>

text \<open>
  \<^verbatim>\<open>NumVbuckets\<close> is a package constant declared outside the sources at hand; it is a
  parameter here, as are the eventing node addresses that \<^verbatim>\<open>getEventingNodeAddrs\<close> returns.

  Both functions compute the per-member counts with the same two loops (lines 32--43 and
  79--90): every member gets \<^verbatim>\<open>total / parts\<close>, then the first \<^verbatim>\<open>total - parts * (total /
  parts)\<close> members get one more. The second loop only runs over indices below the
  remainder, which is below \<open>parts\<close>, so no index is out of range.
\<close>

definition splitCounts :: "nat \<Rightarrow> nat \<Rightarrow> nat list" where
  "splitCounts totalVbs parts =
     (let perPart = totalVbs div parts;
          (counts, assigned) =
             fold (\<lambda>i (cs, n). (cs[i := perPart], n + perPart)) [0..<parts] (replicate parts 0, 0);
          remainingVbs = totalVbs - assigned
      in if remainingVbs > 0
         then fold (\<lambda>i cs. cs[i := cs ! i + 1]) [0..<remainingVbs] counts
         else counts)"

text \<open>One pass of the innermost loop of \<^verbatim>\<open>vbEventingNodeAssign\<close>:
  \<^verbatim>\<open>p.vbEventingNodeAssignMap[startVb] = eventingNodeAddrs[i]; startVb++\<close>, with \<^verbatim>\<open>startVb\<close>
  a \<^verbatim>\<open>uint16\<close> that wraps around.\<close>

definition assignVb :: "string \<Rightarrow> (vbno \<rightharpoonup> string) \<times> vbno \<Rightarrow> (vbno \<rightharpoonup> string) \<times> vbno" where
  "assignVb addr st = (case st of (m, startVb) \<Rightarrow> (m(startVb \<mapsto> addr), startVb + 1))"

text \<open>The result is \<open>None\<close> when the function panics: with no eventing node the division
  \<^verbatim>\<open>NumVbuckets / len(eventingNodeAddrs)\<close> is a division by zero.\<close>

definition vbEventingNodeAssign :: "string list \<Rightarrow> nat \<Rightarrow> (vbno \<rightharpoonup> string) option" where
  "vbEventingNodeAssign eventingNodeAddrs NumVbuckets =
     (if length eventingNodeAddrs = 0 then None
      else
        let vbCountPerNode = splitCounts NumVbuckets (length eventingNodeAddrs)
        in Some (fst (fold (\<lambda>i st. fold (\<lambda>j. assignVb (eventingNodeAddrs ! i))
                                      [0..<vbCountPerNode ! i] st)
                        [0..<length vbCountPerNode] (Map.empty, 0))))"

text \<open>\<^verbatim>\<open>initWorkerVbMap\<close>. The keys of the node map whose value is this node's address are
  collected in map order and sorted by \<^verbatim>\<open>sort.Ints\<close>: the sorted list of those keys.\<close>

definition vbucketsToHandle :: "(vbno \<rightharpoonup> string) \<Rightarrow> string \<Rightarrow> nat list" where
  "vbucketsToHandle m addr = sorted_list_of_set (unat ` {k. m k = Some addr})"

definition workerNameOf :: "string \<Rightarrow> nat \<Rightarrow> string" where
  "workerNameOf app i = ''worker_'' @ app @ ''_'' @ Itoa i"

definition lookupVbs :: "(string \<rightharpoonup> vbno list) \<Rightarrow> string \<Rightarrow> vbno list" where
  "lookupVbs m name = (case m name of None \<Rightarrow> [] | Some vbs \<Rightarrow> vbs)"

text \<open>One pass of the innermost loop:
  \<^verbatim>\<open>p.workerVbucketMap[workerName] = append(p.workerVbucketMap[workerName],
  uint16(vbucketsToHandle[startVbIndex])); startVbIndex++\<close>.\<close>

definition appendVb ::
  "nat list \<Rightarrow> string \<Rightarrow> (string \<rightharpoonup> vbno list) \<times> nat \<Rightarrow> (string \<rightharpoonup> vbno list) \<times> nat" where
  "appendVb vbs name st =
     (case st of (m, startVbIndex) \<Rightarrow>
        (m(name \<mapsto> lookupVbs m name @ [word_of_nat (vbs ! startVbIndex)]), startVbIndex + 1))"

text \<open>\<open>None\<close> is the panic of \<^verbatim>\<open>len(vbucketsToHandle) / p.workerCount\<close> with no worker.\<close>

definition initWorkerVbMap ::
  "(vbno \<rightharpoonup> string) \<Rightarrow> string \<Rightarrow> string \<Rightarrow> nat \<Rightarrow> (string \<rightharpoonup> vbno list) option" where
  "initWorkerVbMap vbEventingNodeAssignMap eventingNodeAddr app workerCount =
     (if workerCount = 0 then None
      else
        let vbs = vbucketsToHandle vbEventingNodeAssignMap eventingNodeAddr;
            vbCountPerWorker = splitCounts (length vbs) workerCount
        in Some (fst (fold (\<lambda>i st. fold (\<lambda>j. appendVb vbs (workerNameOf app i))
                                      [0..<vbCountPerWorker ! i] st)
                        [0..<workerCount] (Map.empty, 0))))"

subsection \<open>The spec's rule\<close>

text \<open>The spec's words: with \<open>q = N div m\<close> and \<open>r = N mod m\<close>, member \<open>i\<close> receives
  \<open>q + (1 if i < r else 0)\<close> partitions, in ascending contiguous blocks. \<open>blockCount\<close> is
  that number, \<open>blockStart\<close> the first position of member \<open>i\<close>'s block, and
  \<open>workerBlock\<close> the block of worker \<open>i\<close> in a node's sorted local partitions.\<close>

definition blockCount :: "nat \<Rightarrow> nat \<Rightarrow> nat \<Rightarrow> nat" where
  "blockCount totalVbs parts i = totalVbs div parts + (if i < totalVbs mod parts then 1 else 0)"

definition blockStart :: "nat \<Rightarrow> nat \<Rightarrow> nat \<Rightarrow> nat" where
  "blockStart totalVbs parts i = i * (totalVbs div parts) + min i (totalVbs mod parts)"

definition workerBlock :: "nat list \<Rightarrow> nat \<Rightarrow> nat \<Rightarrow> vbno list" where
  "workerBlock vbs parts i =
     map word_of_nat (take (blockCount (length vbs) parts i)
                        (drop (blockStart (length vbs) parts i) vbs))"

section \<open>Consumer: vbucket takeover and give-up (consumer/vbucket\_takeover.go)\<close>

subsection \<open>Data\<close>

text \<open>
  The checkpoint blob \<^verbatim>\<open>vbucketKVBlob\<close>. Its declaration is not part of the sources at
  hand; the fields below are the ones the takeover code reads or writes. Every other
  field of the Go struct lives in the record's extension part (\<open>more\<close>), so that a
  statement about ``all other fields'' is a statement about \<open>more\<close>.
\<close>

record vbucketKVBlob =
  AssignedDocIDTimerWorker :: string
  AssignedWorker :: string
  CurrentVBOwner :: string
  DCPStreamStatus :: string
  LastCheckpointTime :: string
  LastDocTimerFeedbackSeqNo :: seqno
  LastSeqNoProcessed :: seqno
  NodeUUID :: string
  PreviousAssignedWorker :: string
  PreviousEventingDir :: string
  PreviousNodeUUID :: string
  PreviousVBOwner :: string

text \<open>Modelled from the spec: the three stream-status constants (\<^verbatim>\<open>dcpStreamRunning\<close>,
  \<^verbatim>\<open>dcpStreamStopped\<close>, \<^verbatim>\<open>dcpStreamUninitialised\<close>) are declared outside the sources at
  hand; the spec names the states \<^verbatim>\<open>uninitialised | running | stopped\<close>. The status
  field itself is a Go string, so other values can occur.\<close>

definition dcpStreamRunning :: string where
  "dcpStreamRunning = ''running''"

definition dcpStreamStopped :: string where
  "dcpStreamStopped = ''stopped''"

definition dcpStreamUninitialised :: string where
  "dcpStreamUninitialised = ''uninitialised''"

datatype error =
    errFailedRPCDownloadDir
  | errFailedConnectRemoteRPC
  | errUnexpectedVbStreamStatus
  | errVbOwnedByAnotherWorker
  | errVbOwnedByAnotherNode
  | errOther string

text \<open>Values stored in \<^verbatim>\<open>vbProcessingStats\<close> (Go \<^verbatim>\<open>interface{}\<close>): strings and sequence
  numbers are the two kinds this file writes.\<close>

datatype statVal = StatStr string | StatSeq seqno

text \<open>Calls that leave the process, in the order they are made.\<close>

datatype 'a effect =
    DcpCloseStream vbno
  | DcpRequestStream vbno seqno
  | UpdateCheckpointOp string "'a vbucketKVBlob_scheme"
  | RPCDialPath string string
  | DownloadDir string string string string
  | CopyPlasmaRecords vbno string

text \<open>
  The consumer: its identity (what \<^verbatim>\<open>NodeUUID()\<close>, \<^verbatim>\<open>ConsumerName()\<close>,
  \<^verbatim>\<open>HostPortAddr()\<close> return, \<^verbatim>\<open>eventingDir\<close>, \<^verbatim>\<open>app.AppName\<close>), the producer's view
  it calls into, and the mutable state the takeover code touches. \<^verbatim>\<open>vbStreamRequested\<close>
  (a \<^verbatim>\<open>map[uint16]struct{}\<close>) and \<^verbatim>\<open>vbsStreamClosed\<close> (a \<^verbatim>\<open>map[uint16]bool\<close> only tested
  for presence) are sets.
\<close>

record 'a Consumer =
  uuid :: string
  workerName :: string
  hostPortAddr :: string
  eventingDir :: string
  appName :: string
  IsEventingNodeAlive :: "string \<Rightarrow> string \<Rightarrow> bool"
  VbEventingNodeAssignMap :: "vbno \<rightharpoonup> string"
  vbStreamRequested :: "vbno set"
  vbsStreamClosed :: "vbno set"
  vbProcessingStats :: "vbno \<Rightarrow> string \<rightharpoonup> statVal"
  effects :: "'a effect list"

text \<open>The collaborators whose code is elsewhere (\<^verbatim>\<open>getOpCallback\<close>, \<^verbatim>\<open>dcpRequestStreamHandle\<close>,
  the timer address lookups, \<^verbatim>\<open>net.SplitHostPort\<close>, the RPC client, \<^verbatim>\<open>copyPlasmaRecords\<close>, the
  clock): each field is the answer the call gives. A call that acts outside the consumer
  is also recorded in \<open>effects\<close>; what such a call does to the consumer's own fields is
  not part of the model.\<close>

record 'a Env =
  getOp :: "string \<Rightarrow> 'a vbucketKVBlob_scheme"
  dcpRequestStreamHandle :: "vbno \<Rightarrow> 'a vbucketKVBlob_scheme \<Rightarrow> seqno \<Rightarrow> error option"
  aggTimerHostPortAddrs :: "string \<rightharpoonup> (string \<rightharpoonup> string)"
  aggUUID :: "string \<rightharpoonup> string"
  splitHost :: "string \<Rightarrow> string"
  splitPort :: "string \<Rightarrow> string"
  joinHostPort :: "string \<Rightarrow> string \<Rightarrow> string"
  dialPathFails :: "string \<Rightarrow> string \<Rightarrow> bool"
  copyPlasmaRecords :: "vbno \<Rightarrow> string \<Rightarrow> error option"
  timeNow :: string

definition updateVbStat :: "'a Consumer \<Rightarrow> vbno \<Rightarrow> string \<Rightarrow> statVal \<Rightarrow> 'a Consumer" where
  "updateVbStat c vb k v =
     c\<lparr>vbProcessingStats := (vbProcessingStats c)(vb := (vbProcessingStats c vb)(k \<mapsto> v))\<rparr>"

definition emit :: "'a Consumer \<Rightarrow> 'a effect \<Rightarrow> 'a Consumer" where
  "emit c e = c\<lparr>effects := effects c @ [e]\<rparr>"

definition vbKeyOf :: "'a Consumer \<Rightarrow> vbno \<Rightarrow> string" where
  "vbKeyOf c vb = appName c @ ''::vb::'' @ Itoa (unat vb)"

definition checkIfCurrentNodeShouldOwnVb :: "'a Consumer \<Rightarrow> vbno \<Rightarrow> bool" where
  "checkIfCurrentNodeShouldOwnVb c vb =
     ((case VbEventingNodeAssignMap c vb of None \<Rightarrow> [] | Some a \<Rightarrow> a) = hostPortAddr c)"

subsection \<open>updateVbOwnerAndStartDCPStream\<close>

definition streamStartSeqNo :: "'a vbucketKVBlob_scheme \<Rightarrow> seqno" where
  "streamStartSeqNo vbBlob =
     (if LastDocTimerFeedbackSeqNo vbBlob < LastSeqNoProcessed vbBlob
      then LastDocTimerFeedbackSeqNo vbBlob
      else LastSeqNoProcessed vbBlob)"

text \<open>Lines 396--434: the address of the previous owner's RPC server. A missing map key
  reads as the zero value, a failed \<^verbatim>\<open>net.SplitHostPort\<close> is logged and its empty results
  are used.\<close>

definition remoteConsumerAddr :: "'a Env \<Rightarrow> 'a vbucketKVBlob_scheme \<Rightarrow> string" where
  "remoteConsumerAddr env vbBlob =
     (let timerAddrs = aggTimerHostPortAddrs env;
          previousAssignedWorker = PreviousAssignedWorker vbBlob;
          previousNodeUUID = PreviousNodeUUID vbBlob;
          previousVBOwner = PreviousVBOwner vbBlob
      in case (case timerAddrs previousVBOwner of None \<Rightarrow> None
               | Some ws \<Rightarrow> ws previousAssignedWorker) of
           None \<Rightarrow>
             (let addr = (case aggUUID env previousNodeUUID of None \<Rightarrow> [] | Some a \<Rightarrow> a)
              in case timerAddrs addr of
                   None \<Rightarrow> []
                 | Some ws \<Rightarrow>
                     (case ws previousAssignedWorker of
                        None \<Rightarrow> []
                      | Some hp \<Rightarrow> joinHostPort env (splitHost env previousVBOwner) (splitPort env hp)))
         | Some hp \<Rightarrow> joinHostPort env (splitHost env previousVBOwner) (splitPort env hp))"

definition updateVbOwnerAndStartDCPStream ::
  "'a Env \<Rightarrow> 'a Consumer \<Rightarrow> string \<Rightarrow> vbno \<Rightarrow> 'a vbucketKVBlob_scheme \<Rightarrow> error option \<times> 'a Consumer" where
  "updateVbOwnerAndStartDCPStream env c vbKey vb vbBlob =
     (if vb \<in> vbStreamRequested c then (None, c)
      else
        let c1 = c\<lparr>vbStreamRequested := insert vb (vbStreamRequested c)\<rparr>;
            c2 = updateVbStat c1 vb ''last_processed_seq_no'' (StatSeq (LastSeqNoProcessed vbBlob));
            c3 = updateVbStat c2 vb ''last_doc_timer_feedback_seqno''
                   (StatSeq (LastDocTimerFeedbackSeqNo vbBlob));
            c4 = emit c3 (DcpRequestStream vb (streamStartSeqNo vbBlob))
        in case dcpRequestStreamHandle env vb vbBlob (streamStartSeqNo vbBlob) of
             Some err \<Rightarrow> (Some err, c4\<lparr>vbStreamRequested := vbStreamRequested c4 - {vb}\<rparr>)
           | None \<Rightarrow>
               (let previousAssignedWorker = PreviousAssignedWorker vbBlob;
                    previousEventingDir = PreviousEventingDir vbBlob;
                    previousNodeUUID = PreviousNodeUUID vbBlob;
                    remote = remoteConsumerAddr env vbBlob;
                    path = ''/'' @ previousAssignedWorker @ ''/'';
                    c5 = emit c4 (RPCDialPath remote path)
                in if dialPathFails env remote path then (Some errFailedConnectRemoteRPC, c5)
                   else
                     let timerDir = ''reb_'' @ Itoa (unat vb) @ ''_'' @ appName c @ ''_timer.data'';
                         sTimerDir = previousEventingDir @ ''/'' @ timerDir;
                         dTimerDir = eventingDir c @ ''/'' @ timerDir
                     in if uuid c \<noteq> previousNodeUUID then
                          (let c6 = emit c5 (DownloadDir timerDir sTimerDir dTimerDir remote);
                               c7 = emit c6 (CopyPlasmaRecords vb dTimerDir)
                           in case copyPlasmaRecords env vb dTimerDir of
                                Some err \<Rightarrow> (Some err, c7)
                              | None \<Rightarrow> (None, c7))
                        else (None, c5)))"

subsection \<open>doVbTakeover\<close>

text \<open>The \<^verbatim>\<open>return\<close> statement a call leaves through, by its line in the source.\<close>

datatype returnSite =
    Line290 | Line297 | Line309 | Line311 | Line315 | Line318 | Line325 | Line328

definition doVbTakeover ::
  "'a Env \<Rightarrow> 'a Consumer \<Rightarrow> vbno \<Rightarrow> returnSite \<times> error option \<times> 'a Consumer" where
  "doVbTakeover env c vb =
     (let vbKey = vbKeyOf c vb;
          vbBlob = getOp env vbKey
      in if DCPStreamStatus vbBlob = dcpStreamRunning then
           (if NodeUUID vbBlob = uuid c \<and> AssignedWorker vbBlob = workerName c
            then (Line290, None, c)
            else if uuid c \<noteq> NodeUUID vbBlob
                    \<and> \<not> IsEventingNodeAlive c (CurrentVBOwner vbBlob) (NodeUUID vbBlob)
                    \<and> checkIfCurrentNodeShouldOwnVb c vb
            then
              (if NodeUUID vbBlob = uuid c \<and> AssignedWorker vbBlob \<noteq> workerName c
               then (Line297, Some errVbOwnedByAnotherWorker, c)
               else if NodeUUID vbBlob = uuid c \<and> AssignedWorker vbBlob = workerName c
               then (Line309, updateVbOwnerAndStartDCPStream env c vbKey vb vbBlob)
               else (Line311, updateVbOwnerAndStartDCPStream env c vbKey vb vbBlob))
            else if NodeUUID vbBlob = uuid c \<and> AssignedWorker vbBlob \<noteq> workerName c
            then (Line315, Some errVbOwnedByAnotherWorker, c)
            else (Line318, Some errVbOwnedByAnotherNode, c))
         else if DCPStreamStatus vbBlob = dcpStreamStopped
                 \<or> DCPStreamStatus vbBlob = dcpStreamUninitialised
         then (Line325, updateVbOwnerAndStartDCPStream env c vbKey vb vbBlob)
         else (Line328, Some errUnexpectedVbStreamStatus, c))"

subsection \<open>updateCheckpoint and the give-up routine\<close>

definition updateCheckpoint ::
  "'a Env \<Rightarrow> 'a Consumer \<Rightarrow> string \<Rightarrow> vbno \<Rightarrow> 'a vbucketKVBlob_scheme
     \<Rightarrow> 'a vbucketKVBlob_scheme \<times> 'a Consumer" where
  "updateCheckpoint env c vbKey vb vbBlob =
     (let b = vbBlob\<lparr>AssignedDocIDTimerWorker := [],
                     AssignedWorker := [],
                     CurrentVBOwner := [],
                     DCPStreamStatus := dcpStreamStopped,
                     LastCheckpointTime := timeNow env,
                     NodeUUID := [],
                     PreviousAssignedWorker := workerName c,
                     PreviousEventingDir := eventingDir c,
                     PreviousNodeUUID := uuid c,
                     PreviousVBOwner := hostPortAddr c\<rparr>;
          c1 = emit c (UpdateCheckpointOp vbKey b);
          c2 = updateVbStat c1 vb ''doc_id_timer_processing_worker'' (StatStr (AssignedDocIDTimerWorker b));
          c3 = updateVbStat c2 vb ''assigned_worker'' (StatStr (AssignedWorker b));
          c4 = updateVbStat c3 vb ''current_vb_owner'' (StatStr (CurrentVBOwner b));
          c5 = updateVbStat c4 vb ''dcp_stream_status'' (StatStr (DCPStreamStatus b));
          c6 = updateVbStat c5 vb ''node_uuid'' (StatStr (NodeUUID b))
      in (b, c6))"

text \<open>
  The poll loop at label \<^verbatim>\<open>retryVbMetaStateCheck\<close> (lines 144--169). Each round reads the
  blob and then looks at \<^verbatim>\<open>stopVbOwnerGiveupCh\<close>; a round is given as the pair of the blob
  read and whether the channel had a signal. The loop has no bound of its own: over a
  finite list of rounds the result is \<open>None\<close> when every round asked for another one.
\<close>

datatype pollExit = StopSignalled | GracefulExit

definition retryCondition :: "'a Consumer \<Rightarrow> 'a vbucketKVBlob_scheme \<Rightarrow> bool" where
  "retryCondition c vbBlob =
     (DCPStreamStatus vbBlob \<noteq> dcpStreamRunning
      \<or> (NodeUUID vbBlob = uuid c \<and> AssignedWorker vbBlob = workerName c))"

fun retryVbMetaStateCheck ::
  "'a Consumer \<Rightarrow> ('a vbucketKVBlob_scheme \<times> bool) list \<Rightarrow> (pollExit \<times> nat) option" where
  "retryVbMetaStateCheck c [] = None"
| "retryVbMetaStateCheck c ((vbBlob, stop) # rounds) =
     (if stop then Some (StopSignalled, 0)
      else if retryCondition c vbBlob then
        (case retryVbMetaStateCheck c rounds of
           None \<Rightarrow> None
         | Some (e, k) \<Rightarrow> Some (e, Suc k))
      else Some (GracefulExit, 0))"

section \<open>Settings loader (producer, \<^verbatim>\<open>parseDepcfg\<close>)\<close>

subsection \<open>The application descriptor\<close>

text \<open>The tables of the schema \<^verbatim>\<open>flatbuf.cfg\<close>, field for field; a field name carries its
  table's name as a prefix. The descriptor is kept as the decoded table: decoding the
  bytes (\<^verbatim>\<open>cfg.GetRootAsConfig\<close>) is a function of the environment.\<close>

record Bucket =
  bucket_bucketName :: string
  bucket_alias :: string
  bucket_scopeName :: string
  bucket_collectionName :: string

record Curl =
  curl_hostname :: string
  curl_value :: string
  curl_authType :: string
  curl_username :: string
  curl_password :: string
  curl_bearerKey :: string
  curl_allowCookies :: bool
  curl_validateSSLCertificate :: bool

record Constant =
  constant_value :: string
  constant_literal :: string

record DepCfg =
  depcfg_buckets :: "Bucket list"
  depcfg_metadataBucket :: string
  depcfg_sourceBucket :: string
  depcfg_sourceScope :: string
  depcfg_sourceCollection :: string
  depcfg_metadataScope :: string
  depcfg_metadataCollection :: string

record Config =
  cfg_appCode :: string
  cfg_appName :: string
  cfg_depCfg :: DepCfg
  cfg_handlerUUID :: "32 word"
  cfg_reserved1 :: "32 word"
  cfg_reserved2 :: bool
  cfg_functionInstanceID :: string
  cfg_reserved3 :: bool
  cfg_access :: "string list"
  cfg_curl :: "Curl list"
  cfg_enforceSchema :: bool
  cfg_constants :: "Constant list"
  cfg_lifecycleState :: string
  cfg_version :: string

text \<open>
  \<^verbatim>\<open>parseDepcfg\<close> also calls the accessor \<^verbatim>\<open>config.Id()\<close>. The accessor belongs to the generated
  package \<^verbatim>\<open>cfg\<close>, whose code is not among the sources, and the schema declares no field
  \<^verbatim>\<open>id\<close>. What \<^verbatim>\<open>int(config.Id())\<close> gives for a descriptor is therefore a parameter: the
  field \<open>Config_Id\<close> of the environment below.
\<close>

subsection \<open>Settings\<close>

text \<open>The settings document after \<^verbatim>\<open>json.Unmarshal\<close> into a \<^verbatim>\<open>map[string]interface{}\<close>. A
  JSON number arrives as a \<^verbatim>\<open>float64\<close>: its type \<open>'f\<close> and its conversion to an integer
  are parameters. A single-value type assertion \<^verbatim>\<open>val.(T)\<close> panics unless the value has type
  \<^verbatim>\<open>T\<close>; a missing key reads as the nil interface, on which every assertion panics.\<close>

datatype 'f json =
    JNull | JBool bool | JNumber 'f | JString string
  | JArray "'f json list" | JObject "(string \<times> 'f json) list"

text \<open>What a call does: it panics, returns an error, or returns normally.\<close>

datatype 'a res = Panic | Err string | Ok 'a

definition bindRes :: "'a res \<Rightarrow> ('a \<Rightarrow> 'b res) \<Rightarrow> 'b res" where
  "bindRes r f = (case r of Panic \<Rightarrow> Panic | Err e \<Rightarrow> Err e | Ok x \<Rightarrow> f x)"

definition mapRes :: "('a \<Rightarrow> 'b) \<Rightarrow> 'a res \<Rightarrow> 'b res" where
  "mapRes f r = (case r of Panic \<Rightarrow> Panic | Err e \<Rightarrow> Err e | Ok x \<Rightarrow> Ok (f x))"

definition assertBool :: "'f json option \<Rightarrow> bool res" where
  "assertBool v = (case v of Some (JBool b) \<Rightarrow> Ok b | _ \<Rightarrow> Panic)"

definition assertString :: "'f json option \<Rightarrow> string res" where
  "assertString v = (case v of Some (JString s) \<Rightarrow> Ok s | _ \<Rightarrow> Panic)"

definition assertFloat64 :: "'f json option \<Rightarrow> 'f res" where
  "assertFloat64 v = (case v of Some (JNumber f) \<Rightarrow> Ok f | _ \<Rightarrow> Panic)"

text \<open>The pattern \<^verbatim>\<open>if val, ok := settings[k]; !ok { field = default } else { field =
  val.(T) }\<close>, for the three types that occur.\<close>

definition boolSetting :: "(string \<rightharpoonup> 'f json) \<Rightarrow> string \<Rightarrow> bool \<Rightarrow> bool res" where
  "boolSetting settings k d = (if settings k = None then Ok d else assertBool (settings k))"

definition stringSetting :: "(string \<rightharpoonup> 'f json) \<Rightarrow> string \<Rightarrow> string \<Rightarrow> string res" where
  "stringSetting settings k d = (if settings k = None then Ok d else assertString (settings k))"

definition intSetting :: "('f \<Rightarrow> int) \<Rightarrow> (string \<rightharpoonup> 'f json) \<Rightarrow> string \<Rightarrow> int \<Rightarrow> int res" where
  "intSetting conv settings k d =
     (if settings k = None then Ok d else bindRes (assertFloat64 (settings k)) (\<lambda>f. Ok (conv f)))"

text \<open>\<^verbatim>\<open>time.Duration(x) * time.Second\<close>: a product of 64-bit integers.\<close>

definition mulInt64 :: "int \<Rightarrow> int \<Rightarrow> int" where
  "mulInt64 a b = sint (word_of_int a * word_of_int b :: 64 word)"

subsection \<open>Producer state and environment\<close>

text \<open>\<^verbatim>\<open>common.AppConfig\<close> and the fields of \<^verbatim>\<open>Producer\<close> that \<^verbatim>\<open>parseDepcfg\<close> reads or writes
  (\<^verbatim>\<open>p.appName\<close> and \<^verbatim>\<open>p.eventingDir\<close> carry a prefix). The environment holds what the calls
  into other packages return: the metakv lookups, the HTTP credentials, the JSON decoder,
  the hash of the handler code, the clock and the cluster queries; \<open>Inl\<close> is a returned
  error.\<close>

record 'f AppConfig =
  AppCode :: string
  AppName :: string
  AppState :: string
  AppVersion :: string
  LastDeploy :: string
  ID :: int
  Settings :: "string \<rightharpoonup> 'f json"

record 'f Producer =
  p_appName :: string
  p_eventingDir :: string
  nsServerPort :: string
  app :: "'f AppConfig"
  auth :: string
  bucket :: string
  cfgData :: string
  metadatabucket :: string
  cleanupTimers :: bool
  dcpStreamBoundary :: string
  logLevel :: string
  statsTickDuration :: int
  workerCount :: int
  timerWorkerPoolSize :: int
  socketWriteBatchSize :: int
  skipTimerThreshold :: int
  rbacUser :: string
  rbacPass :: string
  lcbInstCapacity :: int
  enableRecursiveMutation :: bool
  socketTimeout :: int
  vbOwnershipGiveUpRoutineCount :: int
  vbOwnershipTakeoverRoutineCount :: int
  executionTimeout :: int
  fuzzOffset :: int
  cppWorkerThrCount :: int
  plasmaMemQuota :: int
  xattrEntryPruneThreshold :: int
  appLogPath :: string
  appLogMaxSize :: int
  appLogMaxFiles :: int
  curlTimeout :: int
  workerQueueCap :: int
  kvHostPorts :: "string list"
  nsServerHostPort :: string

record 'f DepcfgEnv =
  metakvAppData :: string
  GetRootAsConfig :: "string \<Rightarrow> Config"
  Config_Id :: "Config \<Rightarrow> int"
  httpServiceAuth :: "string \<times> string"
  metakvSettings :: "string + string"
  jsonUnmarshal :: "string \<Rightarrow> string + (string \<rightharpoonup> 'f json)"
  float64ToInt :: "'f \<Rightarrow> int"
  GetHash :: "string \<Rightarrow> string"
  appUndeployed :: string
  deployTime :: string
  errorUnexpectedWorkerCount :: string
  LocalEventingServiceHost :: "string + string"
  KVNodesAddresses :: "string + string list"

subsection \<open>parseDepcfg\<close>

text \<open>Lines 64--220 are a sequence of blocks, each reading one key and assigning one
  field; a block that panics or returns an error ends the call. \<open>assign\<close> is one such
  block, \<open>runSteps\<close> runs blocks in order. The last two blocks are
  \<^verbatim>\<open>p.app.Settings = settings\<close> and \<^verbatim>\<open>logLevel := settings["log_level"].(string)\<close> (line 220),
  whose value only goes to the logger.\<close>

definition assign :: "'v res \<Rightarrow> ('v \<Rightarrow> 'p \<Rightarrow> 'p) \<Rightarrow> 'p \<Rightarrow> 'p res" where
  "assign r upd p = bindRes r (\<lambda>v. Ok (upd v p))"

definition runSteps :: "('p \<Rightarrow> 'p res) list \<Rightarrow> 'p \<Rightarrow> 'p res" where
  "runSteps steps p = fold (\<lambda>step r. bindRes r step) steps (Ok p)"

definition settingsSteps ::
  "'f DepcfgEnv \<Rightarrow> (string \<rightharpoonup> 'f json) \<Rightarrow> ('f Producer \<Rightarrow> 'f Producer res) list" where
  "settingsSteps env settings =
     (let num = intSetting (float64ToInt env) settings in
      [assign (boolSetting settings ''cleanup_timers'' False) (\<lambda>v. cleanupTimers_update (\<lambda>_. v)),
       assign (stringSetting settings ''dcp_stream_boundary'' ''everything'')
         (\<lambda>v. dcpStreamBoundary_update (\<lambda>_. v)),
       assign (stringSetting settings ''log_level'' ''INFO'') (\<lambda>v. logLevel_update (\<lambda>_. v)),
       assign (num ''tick_duration'' 5000) (\<lambda>v. statsTickDuration_update (\<lambda>_. v)),
       assign (num ''worker_count'' 3) (\<lambda>v. workerCount_update (\<lambda>_. v)),
       assign (num ''timer_worker_pool_size'' 3) (\<lambda>v. timerWorkerPoolSize_update (\<lambda>_. v)),
       assign (num ''sock_batch_size'' 100) (\<lambda>v. socketWriteBatchSize_update (\<lambda>_. v)),
       assign (num ''skip_timer_threshold'' 86400) (\<lambda>v. skipTimerThreshold_update (\<lambda>_. v)),
       assign (if settings ''rbacuser'' = None then Err ''rbac username missing''
               else assertString (settings ''rbacuser'')) (\<lambda>v. rbacUser_update (\<lambda>_. v)),
       assign (if settings ''rbacpass'' = None then Err ''rbac password missing''
               else assertString (settings ''rbacpass'')) (\<lambda>v. rbacPass_update (\<lambda>_. v)),
       assign (num ''lcb_inst_capacity'' 5) (\<lambda>v. lcbInstCapacity_update (\<lambda>_. v)),
       assign (boolSetting settings ''enable_recursive_mutation'' False)
         (\<lambda>v. enableRecursiveMutation_update (\<lambda>_. v)),
       assign (if settings ''deadline_timeout'' = None then Ok (2 * 1000000000)
               else bindRes (assertFloat64 (settings ''deadline_timeout''))
                      (\<lambda>f. Ok (mulInt64 (float64ToInt env f) 1000000000)))
         (\<lambda>v. socketTimeout_update (\<lambda>_. v)),
       assign (num ''vb_ownership_giveup_routine_count'' 3)
         (\<lambda>v. vbOwnershipGiveUpRoutineCount_update (\<lambda>_. v)),
       assign (num ''vb_ownership_takeover_routine_count'' 3)
         (\<lambda>v. vbOwnershipTakeoverRoutineCount_update (\<lambda>_. v)),
       assign (num ''execution_timeout'' 1) (\<lambda>v. executionTimeout_update (\<lambda>_. v)),
       assign (num ''fuzz_offset'' 30) (\<lambda>v. fuzzOffset_update (\<lambda>_. v)),
       assign (num ''cpp_worker_thread_count'' 1) (\<lambda>v. cppWorkerThrCount_update (\<lambda>_. v)),
       assign (num ''memory_quota'' 256) (\<lambda>v. plasmaMemQuota_update (\<lambda>_. v)),
       assign (num ''xattr_doc_timer_entry_prune_threshold'' 100)
         (\<lambda>v. xattrEntryPruneThreshold_update (\<lambda>_. v)),
       (\<lambda>p. assign (if settings ''app_log_dir'' = None
                     then Ok (p_eventingDir p @ ''/'' @ p_appName p @ ''.log'')
                     else bindRes (assertString (settings ''app_log_dir''))
                            (\<lambda>d. Ok (d @ ''/'' @ p_appName p)))
               (\<lambda>v. appLogPath_update (\<lambda>_. v)) p),
       assign (num ''app_log_max_size'' (1024 * 1024 * 10)) (\<lambda>v. appLogMaxSize_update (\<lambda>_. v)),
       assign (num ''app_log_max_files'' 10) (\<lambda>v. appLogMaxFiles_update (\<lambda>_. v)),
       assign (num ''curl_timeout'' 500) (\<lambda>v. curlTimeout_update (\<lambda>_. v)),
       assign (num ''worker_queue_cap'' (1000 * 1000)) (\<lambda>v. workerQueueCap_update (\<lambda>_. v)),
       (\<lambda>p. Ok (p\<lparr>app := (app p)\<lparr>Settings := settings\<rparr>\<rparr>)),
       assign (assertString (settings ''log_level'')) (\<lambda>logLevel' p. p)])"

definition parseSettings ::
  "'f DepcfgEnv \<Rightarrow> 'f Producer \<Rightarrow> (string \<rightharpoonup> 'f json) \<Rightarrow> 'f Producer res" where
  "parseSettings env p settings = runSteps (settingsSteps env settings) p"

text \<open>\<^verbatim>\<open>parseDepcfg\<close> in its three parts: the fields taken from the descriptor and the HTTP
  credentials (lines 28--48), the settings (lines 50--220), and the worker count check
  with the cluster lookups (lines 226--246).\<close>

definition applyDescriptor :: "'f DepcfgEnv \<Rightarrow> 'f Producer \<Rightarrow> 'f Producer" where
  "applyDescriptor env p =
     (let cfgData' = metakvAppData env;
          config = GetRootAsConfig env cfgData';
          depcfg = cfg_depCfg config
      in p\<lparr>app := \<lparr>AppCode = cfg_appCode config,
                     AppName = cfg_appName config,
                     AppState = appUndeployed env,
                     AppVersion = GetHash env (cfg_appCode config),
                     LastDeploy = deployTime env,
                     ID = Config_Id env config,
                     Settings = Map.empty\<rparr>,
            auth := fst (httpServiceAuth env) @ '':'' @ snd (httpServiceAuth env),
            bucket := depcfg_sourceBucket depcfg,
            cfgData := cfgData',
            metadatabucket := depcfg_metadataBucket depcfg\<rparr>)"

definition resolveAddresses :: "'f DepcfgEnv \<Rightarrow> 'f Producer \<Rightarrow> 'f Producer res" where
  "resolveAddresses env p =
     (if workerCount p \<le> 0 then Err (errorUnexpectedWorkerCount env)
      else case LocalEventingServiceHost env of
             Inl err \<Rightarrow> Err err
           | Inr localAddress \<Rightarrow>
               (case KVNodesAddresses env of
                  Inl err \<Rightarrow> Err err
                | Inr addrs \<Rightarrow>
                    Ok (p\<lparr>kvHostPorts := addrs,
                          nsServerHostPort := localAddress @ '':'' @ nsServerPort p\<rparr>)))"

definition parseDepcfg :: "'f DepcfgEnv \<Rightarrow> 'f Producer \<Rightarrow> 'f Producer res" where
  "parseDepcfg env p =
     (let p1 = applyDescriptor env p
      in case metakvSettings env of
           Inl sErr \<Rightarrow> Err sErr
         | Inr sData \<Rightarrow>
             (case jsonUnmarshal env sData of
                Inl uErr \<Rightarrow> Err uErr
              | Inr settings \<Rightarrow> bindRes (parseSettings env p1 settings) (resolveAddresses env)))"

section \<open>Auxiliary definitions for the proofs\<close>

text \<open>The owner of every position, in assignment order: member \<open>i\<close>'s address repeated
  \<open>blockCount\<close> times.\<close>

definition ownersOf :: "string list \<Rightarrow> nat \<Rightarrow> string list" where
  "ownersOf addrs n =
     concat (map (\<lambda>i. replicate (blockCount n (length addrs) i) (addrs ! i)) [0..<length addrs])"

text \<open>What \<^verbatim>\<open>makeThrMapPayload\<close> leaves in the object store for the threads below \<open>k\<close>.\<close>

definition threadSlots :: "nat \<Rightarrow> nat \<Rightarrow> (string \<times> fbValue) list" where
  "threadSlots base i =
     (if (word_of_nat i :: 16 word) = 0 then [] else [(''threadID'', FBInt16 (word_of_nat i))])
       @ [(''partitions'', FBOffset (Suc base))]"

definition threadStep ::
  "(nat \<Rightarrow> vbno list) \<Rightarrow> nat \<Rightarrow> nat list \<times> Builder \<Rightarrow> nat list \<times> Builder" where
  "threadStep ts i st =
     (case st of (tMaps, builder) \<Rightarrow>
        case makeVbsThreadMap builder (ts i) i of (tMap, builder) \<Rightarrow> (tMaps @ [tMap], builder))"

definition threadObjects :: "(nat \<Rightarrow> vbno list) \<Rightarrow> nat \<Rightarrow> fbObject list" where
  "threadObjects ts k =
     concat (map (\<lambda>i. [FBVector (rev (map FBUint16 (ts i))), FBTable (threadSlots (2 * i) i)])
               [0..<k])"

subsection \<open>Example inputs\<close>

text \<open>A consumer \<open>worker_app1_0\<close> on node \<open>uuid-A\<close>; the membership oracle reports node
  \<open>uuid-B\<close> alive and every other node dead; the planner places every partition on this
  node.\<close>

definition demoBlob :: "string \<Rightarrow> string \<Rightarrow> string \<Rightarrow> string \<Rightarrow> vbucketKVBlob" where
  "demoBlob status nodeUUID worker owner =
     \<lparr>AssignedDocIDTimerWorker = worker, AssignedWorker = worker, CurrentVBOwner = owner,
      DCPStreamStatus = status, LastCheckpointTime = ''2017-10-31T00:00:00Z'',
      LastDocTimerFeedbackSeqNo = 40, LastSeqNoProcessed = 42, NodeUUID = nodeUUID,
      PreviousAssignedWorker = ''worker_app1_1'', PreviousEventingDir = ''/data/old'',
      PreviousNodeUUID = ''uuid-B'', PreviousVBOwner = ''10.0.0.2:8096''\<rparr>"

definition demoConsumer :: "unit Consumer" where
  "demoConsumer =
     \<lparr>uuid = ''uuid-A'', workerName = ''worker_app1_0'', hostPortAddr = ''10.0.0.1:8096'',
      eventingDir = ''/data/eventing'', appName = ''app1'',
      IsEventingNodeAlive = (\<lambda>owner nodeUUID. nodeUUID = ''uuid-B''),
      VbEventingNodeAssignMap = (\<lambda>vb. Some ''10.0.0.1:8096''),
      vbStreamRequested = {}, vbsStreamClosed = {},
      vbProcessingStats = (\<lambda>vb. Map.empty), effects = []\<rparr>"

definition demoTakeoverEnv :: "vbucketKVBlob \<Rightarrow> unit Env" where
  "demoTakeoverEnv vbBlob =
     \<lparr>getOp = (\<lambda>vbKey. vbBlob), dcpRequestStreamHandle = (\<lambda>vb b s. None),
      aggTimerHostPortAddrs = Map.empty, aggUUID = Map.empty,
      splitHost = (\<lambda>s. s), splitPort = (\<lambda>s. s), joinHostPort = (\<lambda>h p. h @ '':'' @ p),
      dialPathFails = (\<lambda>a p. False), copyPlasmaRecords = (\<lambda>vb d. None),
      timeNow = ''2017-10-31T00:00:01Z''\<rparr>"

text \<open>An application descriptor and an environment in which every lookup succeeds,
  the settings document decodes to the given map and \<^verbatim>\<open>Id()\<close> answers the descriptor's
  \<^verbatim>\<open>handlerUUID\<close>; JSON numbers are integers here.\<close>

definition demoConfig :: Config where
  "demoConfig =
     \<lparr>cfg_appCode = ''function OnUpdate(doc, meta) {}'', cfg_appName = ''app1'',
      cfg_depCfg = \<lparr>depcfg_buckets = [], depcfg_metadataBucket = ''eventing'',
                    depcfg_sourceBucket = ''default'', depcfg_sourceScope = [],
                    depcfg_sourceCollection = [], depcfg_metadataScope = [],
                    depcfg_metadataCollection = []\<rparr>,
      cfg_handlerUUID = 0, cfg_reserved1 = 0, cfg_reserved2 = False,
      cfg_functionInstanceID = [], cfg_reserved3 = False, cfg_access = [], cfg_curl = [],
      cfg_enforceSchema = False, cfg_constants = [], cfg_lifecycleState = [],
      cfg_version = []\<rparr>"

definition demoDepcfgEnv :: "Config \<Rightarrow> (string \<rightharpoonup> int json) \<Rightarrow> int DepcfgEnv" where
  "demoDepcfgEnv config settings =
     \<lparr>metakvAppData = ''descriptor'', GetRootAsConfig = (\<lambda>d. config),
      Config_Id = (\<lambda>c. int (unat (cfg_handlerUUID c))),
      httpServiceAuth = (''user'', ''secret''), metakvSettings = Inr ''settings'',
      jsonUnmarshal = (\<lambda>d. Inr settings), float64ToInt = (\<lambda>f. f), GetHash = (\<lambda>s. s),
      appUndeployed = ''undeployed'', deployTime = ''2017-10-31T00:00:00'',
      errorUnexpectedWorkerCount = ''unexpected worker count'',
      LocalEventingServiceHost = Inr ''127.0.0.1'',
      KVNodesAddresses = Inr [''127.0.0.1:11210'']\<rparr>"

definition demoProducer :: "int Producer" where
  "demoProducer =
     \<lparr>p_appName = ''app1'', p_eventingDir = ''/data/eventing'', nsServerPort = ''8091'',
      app = \<lparr>AppCode = [], AppName = [], AppState = [], AppVersion = [], LastDeploy = [],
             ID = 0, Settings = Map.empty\<rparr>,
      auth = [], bucket = [], cfgData = [], metadatabucket = [], cleanupTimers = False,
      dcpStreamBoundary = [], logLevel = [], statsTickDuration = 0, workerCount = 0,
      timerWorkerPoolSize = 0, socketWriteBatchSize = 0, skipTimerThreshold = 0,
      rbacUser = [], rbacPass = [], lcbInstCapacity = 0, enableRecursiveMutation = False,
      socketTimeout = 0, vbOwnershipGiveUpRoutineCount = 0,
      vbOwnershipTakeoverRoutineCount = 0, executionTimeout = 0, fuzzOffset = 0,
      cppWorkerThrCount = 0, plasmaMemQuota = 0, xattrEntryPruneThreshold = 0,
      appLogPath = [], appLogMaxSize = 0, appLogMaxFiles = 0, curlTimeout = 0,
      workerQueueCap = 0, kvHostPorts = [], nsServerHostPort = []\<rparr>"

section \<open>Proofs: IPC frames\<close>

subsection \<open>Reading back what the builder stored\<close>

lemma objects_PrependSlot [simp]: "objects (PrependSlot b f x d) = objects b"
  by (simp add: PrependSlot_def)

lemma map_of_PrependSlot [simp]:
  "map_of (slots (PrependSlot b f x d)) g =
     (if g = f \<and> x \<noteq> d then Some x else map_of (slots b) g)"
  by (simp add: PrependSlot_def)

lemma objects_StartObject [simp]: "objects (StartObject b) = objects b"
  by (simp add: StartObject_def)

lemma slots_StartObject [simp]: "slots (StartObject b) = []"
  by (simp add: StartObject_def)

lemma EndObject_simps [simp]:
  "fst (EndObject b) = Suc (length (objects b))"
  "objects (snd (EndObject b)) = objects b @ [FBTable (slots b)]"
  by (simp_all add: EndObject_def)

lemma CreateString_simps [simp]:
  "fst (CreateString b s) = Suc (length (objects b))"
  "objects (snd (CreateString b s)) = objects b @ [FBString s]"
  "slots (snd (CreateString b s)) = slots b"
  by (simp_all add: CreateString_def)

lemma Finish_simps [simp]:
  "frameObjects (Finish b r) = objects b" "frameRoot (Finish b r) = r"
  by (simp_all add: Finish_def)

lemma getBuilder_simps [simp]: "objects getBuilder = []" "slots getBuilder = []" "elems getBuilder = []"
  by (simp_all add: getBuilder_def)

lemmas codec_defs = GetRootAs_def tableAt_def objectAt_def fieldInt8_def fieldByte_def fieldInt16_def
  fieldInt32_def fieldInt64_def fieldString_def Let_def split_beta

lemma decodeHeader_makeHeader: "decodeHeader (makeHeader e opc pt m) = (e, opc, pt, m)"
  by (simp add: decodeHeader_def makeHeader_def codec_defs nth_append)

lemma readPayload_makeDcpPayload: "readPayload (makeDcpPayload k v) = (k, v)"
  by (simp add: readPayload_def makeDcpPayload_def codec_defs nth_append)

lemma decodeV8InitStrings_make: "decodeV8InitStrings (makeV8InitPayload a1 a2 a3 a4 a5 a6 a7 a8 c1 c2 c3 c4 b1 b2 ct)
   = [a1, a2, a3, a4, a5, a6, a7, a8]"
  by (simp add: decodeV8InitStrings_def makeV8InitPayload_def codec_defs nth_append)

lemma decodeV8InitInts_make: "decodeV8InitInts (makeV8InitPayload a1 a2 a3 a4 a5 a6 a7 a8 c1 c2 c3 c4 b1 b2 ct)
   = [ucast c1, ucast c2, ucast c3, ucast c4]"
  by (simp add: decodeV8InitInts_def makeV8InitPayload_def codec_defs nth_append)

lemma decodeV8InitFlags_make: "decodeV8InitFlags (makeV8InitPayload a1 a2 a3 a4 a5 a6 a7 a8 c1 c2 c3 c4 b1 b2 ct)
   = (ct, b1, b2)"
  by (simp add: decodeV8InitFlags_def makeV8InitPayload_def codec_defs nth_append WriteBool_def)

lemma fold_Prepend:
  "fold (\<lambda>x b. Prepend b (f x)) xs b = b\<lparr>elems := rev (map f xs) @ elems b\<rparr>"
  by (induction xs arbitrary: b) (simp_all add: Prepend_def)

lemma fold_Prepend_index:
  "fold (\<lambda>j b. Prepend b (f (ps ! j))) [0..<length ps] b = b\<lparr>elems := rev (map f ps) @ elems b\<rparr>"
proof -
  have "fold (\<lambda>j b. Prepend b (f (ps ! j))) [0..<length ps] b
          = fold (\<lambda>x b. Prepend b (f x)) (map (\<lambda>j. ps ! j) [0..<length ps]) b"
    by (simp add: fold_map comp_def)
  then show ?thesis by (simp add: map_nth fold_Prepend)
qed

lemma makeVbsThreadMap_eq:
  "makeVbsThreadMap b ps i =
     (length (objects b) + 2,
      b\<lparr>objects := objects b @ [FBVector (rev (map FBUint16 ps)), FBTable (threadSlots (length (objects b)) i)],
        slots := [], elems := []\<rparr>)"
  by (simp add: makeVbsThreadMap_def Let_def fold_Prepend_index StartVector_def EndVector_def
      StartObject_def PrependSlot_def EndObject_def threadSlots_def)

lemma length_threadObjects [simp]: "length (threadObjects ts k) = 2 * k"
  by (induction k) (simp_all add: threadObjects_def)

lemma threadObjects_Suc:
  "threadObjects ts (Suc k) = threadObjects ts k @ [FBVector (rev (map FBUint16 (ts k))), FBTable (threadSlots (2 * k) k)]"
  by (simp add: threadObjects_def)

lemma thread_loop:
  "fold (threadStep ts) [0..<k] ([], getBuilder)
   = (map (\<lambda>i. 2 * i + 2) [0..<k], \<lparr>objects = threadObjects ts k, slots = [], elems = []\<rparr>)"
proof (induction k)
  case 0
  then show ?case by (simp add: getBuilder_def threadObjects_def)
next
  case (Suc k)
  have "fold (threadStep ts) [0..<Suc k] ([], getBuilder)
          = threadStep ts k (fold (threadStep ts) [0..<k] ([], getBuilder))"
    by simp
  also have "\<dots> = threadStep ts k (map (\<lambda>i. 2 * i + 2) [0..<k], \<lparr>objects = threadObjects ts k, slots = [], elems = []\<rparr>)"
    by (simp only: Suc)
  also have "\<dots> = (map (\<lambda>i. 2 * i + 2) [0..<Suc k], \<lparr>objects = threadObjects ts (Suc k), slots = [], elems = []\<rparr>)"
    by (simp add: threadStep_def makeVbsThreadMap_eq threadObjects_Suc)
  finally show ?case .
qed

lemma threadObjects_nth:
  "i < k \<Longrightarrow> threadObjects ts k ! (2 * i) = FBVector (rev (map FBUint16 (ts i)))"
  "i < k \<Longrightarrow> threadObjects ts k ! Suc (2 * i) = FBTable (threadSlots (2 * i) i)"
proof (induction k)
  case 0
  { case 1 then show ?case by simp }
  { case 2 then show ?case by simp }
next
  case (Suc k)
  { case 1 then show ?case using Suc(1) by (auto simp: threadObjects_Suc nth_append less_Suc_eq) }
  { case 2 then show ?case using Suc(2) by (auto simp: threadObjects_Suc nth_append less_Suc_eq) }
qed

lemma makeThrMapPayload_eq:
  "makeThrMapPayload thrMap pc =
     \<lparr>frameObjects = threadObjects (thrMapAt thrMap) (length thrMap)
        @ [FBVector (map (\<lambda>i. FBOffset (2 * i + 2)) [0..<length thrMap]),
           FBTable ((if (ucast pc :: 16 word) = 0 then [] else [(''partitionCount'', FBInt16 (ucast pc))])
                    @ [(''thrMap'', FBOffset (Suc (2 * length thrMap)))])],
      frameRoot = 2 * length thrMap + 2\<rparr>"
proof -
  let ?n = "length thrMap"
  have loop: "fold (\<lambda>i (tMaps, builder).
                     case makeVbsThreadMap builder (thrMapAt thrMap i) i of
                       (tMap, builder) \<Rightarrow> (tMaps @ [tMap], builder)) [0..<?n] ([], getBuilder)
        = (map (\<lambda>i. 2 * i + 2) [0..<?n], \<lparr>objects = threadObjects (thrMapAt thrMap) ?n, slots = [], elems = []\<rparr>)"
    using thread_loop [of "thrMapAt thrMap" ?n] by (simp add: threadStep_def [abs_def])
  have offs: "fold (\<lambda>i b. Prepend b (FBOffset (map (\<lambda>i. 2 * i + 2) [0..<?n] ! i))) (rev [0..<?n]) b
        = b\<lparr>elems := map (\<lambda>i. FBOffset (2 * i + 2)) [0..<?n] @ elems b\<rparr>" for b
  proof -
    have "fold (\<lambda>i b. Prepend b (FBOffset (map (\<lambda>i. 2 * i + 2) [0..<?n] ! i))) (rev [0..<?n]) b
        = fold (\<lambda>i b. Prepend b (FBOffset (2 * i + 2))) (rev [0..<?n]) b"
      by (rule fold_cong) simp_all
    then show ?thesis by (simp add: fold_Prepend rev_map)
  qed
  show ?thesis
    unfolding makeThrMapPayload_def Let_def loop prod.case length_map length_upt minus_nat.diff_0 offs
    by (simp add: StartVector_def EndVector_def StartObject_def PrependSlot_def EndObject_def Finish_def)
qed


lemma uint16_elems:
  "concat (map (\<lambda>x. case x of FBUint16 p \<Rightarrow> [p] | _ \<Rightarrow> []) (rev (map FBUint16 ps))) = rev ps"
  by (induction ps) simp_all

lemma decodeVbsThreadMap_thread:
  assumes "i < n" "frameObjects buf = threadObjects ts n @ rest"
  shows "decodeVbsThreadMap buf (FBOffset (2 * i + 2)) = (word_of_nat i, rev (ts i))"
proof -
  have tbl: "tableAt buf (Suc (Suc (2 * i))) = threadSlots (2 * i) i"
    using assms threadObjects_nth(2) [of i n ts]
    by (simp add: tableAt_def objectAt_def nth_append)
  have vec: "objectAt buf (Suc (2 * i)) = Some (FBVector (rev (map FBUint16 (ts i))))"
    using assms threadObjects_nth(1) [of i n ts]
    by (simp add: objectAt_def nth_append)
  have tid: "fieldInt16 (threadSlots (2 * i) i) ''threadID'' = word_of_nat i"
    by (simp add: fieldInt16_def threadSlots_def)
  have ps: "fieldVector buf (threadSlots (2 * i) i) ''partitions'' = rev (map FBUint16 (ts i))"
    by (simp add: fieldVector_def threadSlots_def vec)
  show ?thesis
  proof -
    have tbl': "tableAt buf (2 * i + 2) = threadSlots (2 * i) i" using tbl by simp
    show ?thesis
      by (simp only: decodeVbsThreadMap_def fbValue.case Let_def tbl' tid ps uint16_elems)
  qed
qed

lemma decodeThrMap_makeThrMapPayload:
  "decodeThrMap (makeThrMapPayload thrMap pc)
     = (map (\<lambda>i. (word_of_nat i, rev (thrMapAt thrMap i))) [0..<length thrMap], ucast pc)"
proof -
  let ?n = "length thrMap"
  let ?buf = "makeThrMapPayload thrMap pc"
  have objs: "frameObjects ?buf = threadObjects (thrMapAt thrMap) ?n
        @ [FBVector (map (\<lambda>i. FBOffset (2 * i + 2)) [0..<?n]),
           FBTable ((if (ucast pc :: 16 word) = 0 then [] else [(''partitionCount'', FBInt16 (ucast pc))])
                    @ [(''thrMap'', FBOffset (Suc (2 * ?n)))])]"
    and root: "frameRoot ?buf = 2 * ?n + 2"
    by (simp_all add: makeThrMapPayload_eq)
  have t: "GetRootAs ?buf = (if (ucast pc :: 16 word) = 0 then [] else [(''partitionCount'', FBInt16 (ucast pc))])
                    @ [(''thrMap'', FBOffset (Suc (2 * ?n)))]"
    by (simp add: GetRootAs_def tableAt_def objectAt_def objs root nth_append)
  have v: "fieldVector ?buf (GetRootAs ?buf) ''thrMap'' = map (\<lambda>i. FBOffset (2 * i + 2)) [0..<?n]"
    by (simp add: t fieldVector_def objectAt_def objs nth_append)
  have c: "fieldInt16 (GetRootAs ?buf) ''partitionCount'' = ucast pc"
    by (simp add: t fieldInt16_def)
  have "map (decodeVbsThreadMap ?buf) (map (\<lambda>i. FBOffset (2 * i + 2)) [0..<?n])
          = map (\<lambda>i. (word_of_nat i, rev (thrMapAt thrMap i))) [0..<?n]"
    using decodeVbsThreadMap_thread [OF _ objs] by simp
  then show ?thesis by (simp add: decodeThrMap_def Let_def v c)
qed

lemma thrMapAt_zip:
  "i < length ts \<Longrightarrow> thrMapAt (zip (map int [0..<length ts]) ts) i = ts ! i"
proof -
  assume i: "i < length ts"
  have "map_of (zip (map int [0..<length ts]) ts) (map int [0..<length ts] ! i) = Some (ts ! i)"
    using i by (intro map_of_zip_nth) (simp_all add: distinct_map inj_on_def)
  then show ?thesis using i by (simp add: thrMapAt_def)
qed

lemma wrap_int32: "(4294967301 :: 32 word) = 5"
  by (simp add: word_eq_iff_unsigned [where ?'a = nat] take_bit_eq_mod)

lemma makeV8InitPayload_low_bits:
  "makeV8InitPayload a1 a2 a3 a4 a5 a6 a7 a8 5 c2 c3 c4 b1 b2 ct
     = makeV8InitPayload a1 a2 a3 a4 a5 a6 a7 a8 4294967301 c2 c3 c4 b1 b2 ct"
  by (simp add: makeV8InitPayload_def wrap_int32)


lemma decodeDocTimer_make: "decodeDocTimer (makeDocTimerPayload d f) = (d, f)"
  by (simp add: decodeDocTimer_def makeDocTimerPayload_def codec_defs nth_append)

lemma decodeNonDocTimer_make: "decodeNonDocTimer (makeNonDocTimerPayload d) = d"
  by (simp add: decodeNonDocTimer_def makeNonDocTimerPayload_def codec_defs nth_append)

lemma readHeader_makeHeader: "readHeader (makeHeader e opc pt m) = e"
  by (simp add: readHeader_def makeHeader_def codec_defs nth_append)

lemma sint_narrow:
  fixes x :: "64 word"
  assumes "- (2 ^ 31) \<le> sint x" "sint x < 2 ^ 31"
  shows "sint (ucast x :: 32 word) = sint x"
proof -
  have "sint (ucast x :: 32 word) = signed_take_bit 31 (uint x)"
    by (simp add: signed_ucast_eq)
  also have "\<dots> = signed_take_bit 31 (signed_take_bit 63 (uint x))"
    by (simp add: signed_take_bit_signed_take_bit)
  also have "signed_take_bit 63 (uint x) = sint x"
    by (simp add: sint_uint)
  also have "signed_take_bit 31 (sint x) = sint x"
    using assms by (simp add: signed_take_bit_int_eq_self_iff)
  finally show ?thesis .
qed

lemma decodeThrMap_threads:
  "fst (decodeThrMap (makeThrMapPayload (zip (map int [0..<length ts]) ts) pc))
     = map (\<lambda>i. (word_of_nat i, rev (ts ! i))) [0..<length ts]"
proof -
  have "map (\<lambda>i. (word_of_nat i :: 16 word, rev (thrMapAt (zip (map int [0..<length ts]) ts) i))) [0..<length ts]
          = map (\<lambda>i. (word_of_nat i, rev (ts ! i))) [0..<length ts]"
    by (simp add: thrMapAt_zip)
  then show ?thesis by (simp add: decodeThrMap_makeThrMapPayload)
qed

subsection \<open>Claim C6\<close>

text \<open>
  C6, as stated, fails. The claim: every payload decodes to the original field values.
  \<^verbatim>\<open>makeV8InitPayload\<close> narrows \<^verbatim>\<open>capacity\<close>, \<^verbatim>\<open>executionTimeout\<close>, \<^verbatim>\<open>fuzzOffset\<close> and
  \<^verbatim>\<open>checkpointInterval\<close> with \<^verbatim>\<open>int32(...)\<close> before they reach the builder, so the capacities 5
  and 4294967301 (5 + 2^32) give the same frame: no decoder returns both originals.
\<close>

theorem makeV8InitPayload_roundtrip_counterexample:
  "makeV8InitPayload ''app1'' ''h'' ''d'' ''9000'' ''kv'' ''cfg'' ''u'' ''p'' 4294967301 1 0 0 True False 500
     = makeV8InitPayload ''app1'' ''h'' ''d'' ''9000'' ''kv'' ''cfg'' ''u'' ''p'' 5 1 0 0 True False 500
   \<and> (4294967301 :: 64 word) \<noteq> 5
   \<and> decodeV8InitInts
        (makeV8InitPayload ''app1'' ''h'' ''d'' ''9000'' ''kv'' ''cfg'' ''u'' ''p'' 4294967301 1 0 0 True False 500)
       = [5, 1, 0, 0]"
  by (simp add: makeV8InitPayload_low_bits [symmetric] decodeV8InitInts_make wrap_int32)

text \<open>
  C6, amended. Header frames round-trip for every event, opcode, partition and metadata
  string; the dcp, doc-timer and non-doc-timer payloads round-trip for all strings; the v8
  init payload gives back its eight strings, \<^verbatim>\<open>curlTimeout\<close> and both booleans, and its four
  \<^verbatim>\<open>int\<close> arguments narrowed to 32 bits, which is the original value whenever that fits an
  \<^verbatim>\<open>int32\<close>; the thread-map payload of a map with keys \<open>0..n-1\<close> gives back the partition
  count and the thread ids narrowed to 16 bits and, for each thread, the set of its
  partitions (their order inside a thread is left open here).
\<close>

theorem ipc_frames_roundtrip:
  "decodeHeader (makeHeader event opcode partn meta) = (event, opcode, partn, meta)
   \<and> readHeader (makeHeader event opcode partn meta) = event
   \<and> readPayload (makeDcpPayload key val) = (key, val)
   \<and> decodeDocTimer (makeDocTimerPayload docID callbackFn) = (docID, callbackFn)
   \<and> decodeNonDocTimer (makeNonDocTimerPayload data) = data
   \<and> decodeV8InitStrings (makeV8InitPayload an ch ed ep khp dc ru rp cap et fo ci erm slb ct)
        = [an, ch, ed, ep, khp, dc, ru, rp]
   \<and> decodeV8InitFlags (makeV8InitPayload an ch ed ep khp dc ru rp cap et fo ci erm slb ct)
        = (ct, erm, slb)
   \<and> decodeV8InitInts (makeV8InitPayload an ch ed ep khp dc ru rp cap et fo ci erm slb ct)
        = [ucast cap, ucast et, ucast fo, ucast ci]
   \<and> ((\<forall>x \<in> {cap, et, fo, ci}. - (2 ^ 31) \<le> sint x \<and> sint x < 2 ^ 31) \<longrightarrow>
        map sint (decodeV8InitInts (makeV8InitPayload an ch ed ep khp dc ru rp cap et fo ci erm slb ct))
          = map sint [cap, et, fo, ci])
   \<and> snd (decodeThrMap (makeThrMapPayload thrMap pc)) = ucast pc
   \<and> map fst (fst (decodeThrMap (makeThrMapPayload (zip (map int [0..<length ts]) ts) pc)))
        = map word_of_nat [0..<length ts]
   \<and> map (\<lambda>t. set (snd t)) (fst (decodeThrMap (makeThrMapPayload (zip (map int [0..<length ts]) ts) pc)))
        = map set ts"
proof -
  have ints: "decodeV8InitInts (makeV8InitPayload an ch ed ep khp dc ru rp cap et fo ci erm slb ct)
        = [ucast cap, ucast et, ucast fo, ucast ci]"
    by (rule decodeV8InitInts_make)
  have fits: "(\<forall>x \<in> {cap, et, fo, ci}. - (2 ^ 31) \<le> sint x \<and> sint x < 2 ^ 31) \<longrightarrow>
        map sint (decodeV8InitInts (makeV8InitPayload an ch ed ep khp dc ru rp cap et fo ci erm slb ct))
          = map sint [cap, et, fo, ci]"
    unfolding ints by (simp add: sint_narrow)
  have ids: "map fst (fst (decodeThrMap (makeThrMapPayload (zip (map int [0..<length ts]) ts) pc)))
        = map word_of_nat [0..<length ts]"
    unfolding decodeThrMap_threads by (simp add: comp_def)
  have sets: "map (\<lambda>t. set (snd t)) (fst (decodeThrMap (makeThrMapPayload (zip (map int [0..<length ts]) ts) pc)))
        = map set ts"
    unfolding decodeThrMap_threads by (intro nth_equalityI) simp_all
  show ?thesis
    using ints fits ids sets
    by (simp only: decodeHeader_makeHeader readHeader_makeHeader readPayload_makeDcpPayload
        decodeDocTimer_make decodeNonDocTimer_make decodeV8InitStrings_make
        decodeV8InitFlags_make decodeThrMap_makeThrMapPayload snd_conv simp_thms)
qed

text \<open>Witness for C6 (amended): the init payload of the spec's scenario 6, where all four
  integers fit.\<close>

theorem ipc_frames_roundtrip_witness:
  "- (2 ^ 31) \<le> sint (5 :: 64 word) \<and> sint (5 :: 64 word) < 2 ^ 31
   \<and> - (2 ^ 31) \<le> sint (1 :: 64 word) \<and> sint (1 :: 64 word) < 2 ^ 31
   \<and> - (2 ^ 31) \<le> sint (0 :: 64 word) \<and> sint (0 :: 64 word) < 2 ^ 31
   \<and> map sint (decodeV8InitInts
        (makeV8InitPayload ''app1'' ''h'' ''d'' ''9000'' ''kv'' ''cfg'' ''u'' ''p'' 5 1 0 0 True False 500))
       = [5, 1, 0, 0]
   \<and> decodeV8InitFlags
        (makeV8InitPayload ''app1'' ''h'' ''d'' ''9000'' ''kv'' ''cfg'' ''u'' ''p'' 5 1 0 0 True False 500)
       = (500, True, False)"
  using ipc_frames_roundtrip [of _ _ _ _ _ _ _ _ _ "''app1''" "''h''" "''d''" "''9000''" "''kv''" "''cfg''"
      "''u''" "''p''" 5 1 0 0 True False 500]
  by simp

section \<open>Proofs: planner\<close>

lemma fill_loop:
  "k \<le> length cs \<Longrightarrow>
   fold (\<lambda>i (cs, n). (cs[i := q], n + q)) [0..<k] (cs, n0) = (replicate k q @ drop k cs, n0 + k * q)"
proof (induction k)
  case 0
  then show ?case by simp
next
  case (Suc k)
  then have "k < length cs" by simp
  then have "(replicate k q @ drop k cs)[k := q] = replicate (Suc k) q @ drop (Suc k) cs"
    by (intro nth_equalityI) (auto simp: nth_list_update nth_append nth_Cons' less_Suc_eq)
  with Suc show ?case by simp
qed

lemma bump_loop:
  fixes cs :: "nat list"
  shows "r \<le> length cs \<Longrightarrow>
   fold (\<lambda>i cs. cs[i := cs ! i + 1]) [0..<r] cs = map (\<lambda>i. cs ! i + (if i < r then 1 else 0)) [0..<length cs]"
proof (induction r)
  case 0
  then show ?case by (intro nth_equalityI) simp_all
next
  case (Suc r)
  then have r: "r < length cs" by simp
  have "(map (\<lambda>i. cs ! i + (if i < r then 1 else 0)) [0..<length cs])[r := cs ! r + 1]
          = map (\<lambda>i. cs ! i + (if i < Suc r then 1 else 0)) [0..<length cs]"
    using r by (intro nth_equalityI) (auto simp: nth_list_update less_Suc_eq)
  then show ?case using Suc r by simp
qed

lemma splitCounts_eq:
  assumes "0 < parts"
  shows "splitCounts totalVbs parts = map (blockCount totalVbs parts) [0..<parts]"
proof -
  let ?q = "totalVbs div parts"
  have r: "totalVbs - parts * ?q = totalVbs mod parts"
    by (simp add: minus_mult_div_eq_mod mult.commute)
  have lt: "totalVbs mod parts < parts" using assms by simp
  have fill: "fold (\<lambda>i (cs, n). (cs[i := ?q], n + ?q)) [0..<parts] (replicate parts 0, 0)
               = (replicate parts ?q, parts * ?q)"
    using fill_loop [of parts "replicate parts 0" ?q 0] by simp
  have bump: "fold (\<lambda>i cs. cs[i := cs ! i + 1]) [0..<totalVbs mod parts] (replicate parts ?q)
               = map (blockCount totalVbs parts) [0..<parts]"
    using lt by (subst bump_loop) (auto simp: blockCount_def)
  have zero: "totalVbs mod parts = 0 \<Longrightarrow> replicate parts ?q = map (blockCount totalVbs parts) [0..<parts]"
    by (intro nth_equalityI) (simp_all add: blockCount_def)
  show ?thesis
    unfolding splitCounts_def Let_def fill prod.case r
    using bump zero by auto
qed

lemma length_splitCounts: "0 < parts \<Longrightarrow> length (splitCounts totalVbs parts) = parts"
  by (simp add: splitCounts_eq)

lemma blockStart_Suc: "blockStart totalVbs parts (Suc i) = blockStart totalVbs parts i + blockCount totalVbs parts i"
  by (simp add: blockStart_def blockCount_def min_def)

lemma blockStart_0: "blockStart totalVbs parts 0 = 0"
  by (simp add: blockStart_def)

lemma blockStart_parts:
  assumes "0 < parts"
  shows "blockStart totalVbs parts parts = totalVbs"
proof -
  have "totalVbs mod parts < parts" using assms by simp
  then have "min parts (totalVbs mod parts) = totalVbs mod parts" by simp
  then show ?thesis by (simp add: blockStart_def mult.commute)
qed

lemma blockStart_mono: "i \<le> j \<Longrightarrow> blockStart totalVbs parts i \<le> blockStart totalVbs parts j"
  by (auto simp: blockStart_def min_def intro!: add_mono mult_le_mono1)

lemma fold_upt_replicate: "fold (\<lambda>j. f x) [0..<n] st = fold f (replicate n x) st"
proof (induction n)
  case 0
  then show ?case by simp
next
  case (Suc n)
  have "replicate (Suc n) x = replicate n x @ [x]" by (simp add: replicate_append_same)
  then have "fold f (replicate (Suc n) x) st = f x (fold f (replicate n x) st)"
    by (simp only: fold_append fold_simps comp_apply id_apply)
  then show ?case using Suc by simp
qed

lemma nested_fold_flatten:
  "fold (\<lambda>i st. fold (\<lambda>j. f (a i)) [0..<c i] st) is st =
   fold f (concat (map (\<lambda>i. replicate (c i) (a i)) is)) st"
  by (induction "is" arbitrary: st) (simp_all add: fold_upt_replicate)


lemma of_nat_neq_16:
  assumes "a < b" "b < a + 65536"
  shows "(word_of_nat a :: 16 word) \<noteq> word_of_nat b"
proof
  assume "(word_of_nat a :: 16 word) = word_of_nat b"
  then have "a mod 65536 = b mod 65536"
    by (simp add: word_of_nat_eq_iff take_bit_eq_mod)
  then have "65536 dvd b - a"
    using assms(1) by (metis mod_eq_dvd_iff_nat less_imp_le)
  moreover have "0 < b - a" "b - a < 65536" using assms by simp_all
  ultimately show False using nat_dvd_not_less by blast
qed

lemma assignVb_pair: "assignVb a (m, sv) = (m(sv \<mapsto> a), sv + 1)"
  by (simp add: assignVb_def)

lemma fold_assignVb_snoc:
  "fold assignVb (xs @ [x]) st = assignVb x (fold assignVb xs st)"
  by simp

lemma snd_fold_assignVb: "snd (fold assignVb xs (m, sv)) = sv + word_of_nat (length xs)"
proof (induction xs rule: rev_induct)
  case Nil
  then show ?case by simp
next
  case (snoc x xs)
  then show ?case
    by (cases "fold assignVb xs (m, sv)") (simp add: assignVb_pair ac_simps)
qed

lemma fst_fold_assignVb_last:
  "p < length xs \<Longrightarrow> length xs \<le> p + 65536 \<Longrightarrow>
     fst (fold assignVb xs (m, sv)) (sv + word_of_nat p) = Some (xs ! p)"
proof (induction xs rule: rev_induct)
  case Nil
  then show ?case by simp
next
  case (snoc x xs)
  obtain m' sv' where st: "fold assignVb xs (m, sv) = (m', sv')" by (cases "fold assignVb xs (m, sv)")
  have sv': "sv' = sv + word_of_nat (length xs)"
    using snd_fold_assignVb [of xs m sv] st by simp
  show ?case
  proof (cases "p = length xs")
    case True
    then show ?thesis by (simp add: st assignVb_pair sv')
  next
    case False
    then have lt: "p < length xs" using snoc.prems by simp
    moreover have "length xs \<le> p + 65536" using snoc.prems by simp
    ultimately have IH: "m' (sv + word_of_nat p) = Some (xs ! p)"
      using snoc.IH st by simp
    have "(word_of_nat p :: 16 word) \<noteq> word_of_nat (length xs)"
      using lt snoc.prems by (intro of_nat_neq_16) simp_all
    then show ?thesis using IH lt by (simp add: st assignVb_pair sv' nth_append)
  qed
qed

lemma fst_fold_assignVb_other:
  "(\<forall>p<length xs. k \<noteq> sv + word_of_nat p) \<Longrightarrow> fst (fold assignVb xs (m, sv)) k = m k"
proof (induction xs rule: rev_induct)
  case Nil
  then show ?case by simp
next
  case (snoc x xs)
  obtain m' sv' where st: "fold assignVb xs (m, sv) = (m', sv')" by (cases "fold assignVb xs (m, sv)")
  have sv': "sv' = sv + word_of_nat (length xs)"
    using snd_fold_assignVb [of xs m sv] st by simp
  have "k \<noteq> sv'" using snoc.prems sv' by simp
  moreover have "m' k = m k" using snoc st by simp
  ultimately show ?case by (simp add: st assignVb_pair)
qed

lemma fst_fold_assignVb_dom:
  "dom (fst (fold assignVb xs (m, sv))) = dom m \<union> (\<lambda>p. sv + word_of_nat p) ` {0..<length xs}"
proof (induction xs rule: rev_induct)
  case Nil
  then show ?case by simp
next
  case (snoc x xs)
  obtain m' sv' where st: "fold assignVb xs (m, sv) = (m', sv')" by (cases "fold assignVb xs (m, sv)")
  have sv': "sv' = sv + word_of_nat (length xs)"
    using snd_fold_assignVb [of xs m sv] st by simp
  have d: "dom m' = dom m \<union> (\<lambda>p. sv + word_of_nat p) ` {0..<length xs}"
    using snoc st by simp
  have "fst (fold assignVb (xs @ [x]) (m, sv)) = m'(sv' \<mapsto> x)"
    by (simp add: st assignVb_pair)
  then have "dom (fst (fold assignVb (xs @ [x]) (m, sv))) = insert sv' (dom m')"
    by simp
  moreover have "(\<lambda>p. sv + word_of_nat p) ` {0..<length (xs @ [x])}
      = insert sv' ((\<lambda>p. sv + word_of_nat p) ` {0..<length xs})"
    by (simp add: atLeast0_lessThan_Suc sv')
  ultimately show ?case by (simp add: d)
qed

lemma length_concat_blocks:
  assumes "s 0 = 0" "\<And>i. s (Suc i) = s i + c i"
  shows "length (concat (map (\<lambda>i. replicate (c i) (a i)) [0..<m])) = s m"
  using assms by (induction m) simp_all

lemma starts_mono:
  assumes "\<And>i. s (Suc i) = s i + (c i :: nat)"
  shows "i \<le> j \<Longrightarrow> s i \<le> s j"
  by (rule lift_Suc_mono_le) (simp_all add: assms)

lemma nth_concat_blocks:
  assumes s0: "s 0 = 0" and sS: "\<And>i. s (Suc i) = s i + c i"
  shows "i < m \<Longrightarrow> s i \<le> p \<Longrightarrow> p < s i + c i \<Longrightarrow>
         concat (map (\<lambda>i. replicate (c i) (a i)) [0..<m]) ! p = a i"
proof (induction m)
  case 0
  then show ?case by simp
next
  case (Suc m)
  have len: "length (concat (map (\<lambda>i. replicate (c i) (a i)) [0..<m])) = s m"
    using length_concat_blocks [of s c a m] s0 sS by simp
  show ?case
  proof (cases "i = m")
    case True
    then show ?thesis using Suc.prems len by (simp add: nth_append)
  next
    case False
    then have im: "i < m" using Suc.prems by simp
    then have "s (Suc i) \<le> s m" using starts_mono [of s c "Suc i" m] sS by simp
    then have "p < s m" using Suc.prems sS by simp
    then show ?thesis using Suc im len by (simp add: nth_append)
  qed
qed

lemma block_exists:
  assumes s0: "s 0 = (0::nat)" and sS: "\<And>i. s (Suc i) = s i + c i"
  shows "p < s m \<Longrightarrow> \<exists>i<m. s i \<le> p \<and> p < s i + c i"
proof (induction m)
  case 0
  then show ?case using s0 by simp
next
  case (Suc m)
  show ?case
  proof (cases "p < s m")
    case True
    then show ?thesis using Suc.IH less_Suc_eq by auto
  next
    case False
    then show ?thesis using Suc.prems sS by (intro exI [of _ m]) simp
  qed
qed


lemma vbEventingNodeAssign_flat:
  assumes "addrs \<noteq> []"
  shows "vbEventingNodeAssign addrs n = Some (fst (fold assignVb (ownersOf addrs n) (Map.empty, 0)))"
proof -
  let ?m = "length addrs"
  have m: "0 < ?m" using assms by simp
  have "fold (\<lambda>i st. fold (\<lambda>j. assignVb (addrs ! i)) [0..<map (blockCount n ?m) [0..<?m] ! i] st) [0..<?m] st0
      = fold (\<lambda>i st. fold (\<lambda>j. assignVb (addrs ! i)) [0..<blockCount n ?m i] st) [0..<?m] st0" for st0
    by (rule fold_cong) simp_all
  then show ?thesis
    using m by (simp add: vbEventingNodeAssign_def splitCounts_eq ownersOf_def nested_fold_flatten)
qed

lemma length_ownersOf: "addrs \<noteq> [] \<Longrightarrow> length (ownersOf addrs n) = n"
  unfolding ownersOf_def
  using length_concat_blocks [of "blockStart n (length addrs)" "blockCount n (length addrs)" "\<lambda>i. addrs ! i" "length addrs"]
  by (simp add: blockStart_0 blockStart_Suc blockStart_parts)

lemma nth_ownersOf:
  "i < length addrs \<Longrightarrow> blockStart n (length addrs) i \<le> p \<Longrightarrow>
   p < blockStart n (length addrs) i + blockCount n (length addrs) i \<Longrightarrow>
   ownersOf addrs n ! p = addrs ! i"
  unfolding ownersOf_def
  by (rule nth_concat_blocks [where s = "blockStart n (length addrs)"])
     (simp_all add: blockStart_0 blockStart_Suc)

lemma block_in_range:
  assumes "i < parts"
  shows "blockStart n parts i + blockCount n parts i \<le> n"
proof -
  have "blockStart n parts (Suc i) \<le> blockStart n parts parts"
    using assms by (intro blockStart_mono) simp
  then show ?thesis using assms by (simp add: blockStart_Suc blockStart_parts)
qed

lemma node_block_general:
  assumes "addrs \<noteq> []" "vbEventingNodeAssign addrs n = Some A"
    and "i < length addrs" "blockStart n (length addrs) i \<le> p"
    and "p < blockStart n (length addrs) i + blockCount n (length addrs) i"
    and "n \<le> p + 65536"
  shows "A (word_of_nat p) = Some (addrs ! i)"
proof -
  have A: "A = fst (fold assignVb (ownersOf addrs n) (Map.empty, 0))"
    using assms(1,2) by (simp add: vbEventingNodeAssign_flat)
  have "p < n" using block_in_range [OF assms(3), of n] assms(5) by simp
  then have "A (0 + word_of_nat p) = Some (ownersOf addrs n ! p)"
    unfolding A using assms(1,6) by (intro fst_fold_assignVb_last) (simp_all add: length_ownersOf)
  then show ?thesis using nth_ownersOf [OF assms(3,4,5)] by simp
qed

lemma node_dom:
  assumes "addrs \<noteq> []" "vbEventingNodeAssign addrs n = Some A"
  shows "dom A = word_of_nat ` {0..<n}"
proof -
  have A: "A = fst (fold assignVb (ownersOf addrs n) (Map.empty, 0))"
    using assms by (simp add: vbEventingNodeAssign_flat)
  show ?thesis unfolding A fst_fold_assignVb_dom using assms(1) by (simp add: length_ownersOf)
qed

lemma node_owner_exists:
  assumes "addrs \<noteq> []" "p < n"
  shows "\<exists>i<length addrs. blockStart n (length addrs) i \<le> p
          \<and> p < blockStart n (length addrs) i + blockCount n (length addrs) i"
  using block_exists [of "blockStart n (length addrs)" "blockCount n (length addrs)" p "length addrs"] assms
  by (simp add: blockStart_0 blockStart_Suc blockStart_parts)

lemma digit_inj: "a < 10 \<Longrightarrow> b < 10 \<Longrightarrow> digit a = digit b \<Longrightarrow> a = b"
  using nth_eq_iff_index_eq [of "''0123456789''" a b] by (simp add: digit_def)

lemma Itoa_nonempty: "Itoa n \<noteq> []"
  by (subst Itoa.simps) simp

lemma last_Itoa: "last (Itoa n) = digit (n mod 10)"
  by (subst Itoa.simps) simp

lemma butlast_Itoa: "butlast (Itoa n) = (if n < 10 then [] else Itoa (n div 10))"
  by (subst Itoa.simps) simp

lemma Itoa_inj: "Itoa n = Itoa m \<Longrightarrow> n = m"
proof (induction n arbitrary: m rule: less_induct)
  case (less n)
  have d: "n mod 10 = m mod 10"
    using less.prems last_Itoa [of n] last_Itoa [of m] by (auto intro: digit_inj)
  have bl: "butlast (Itoa n) = butlast (Itoa m)" using less.prems by simp
  show ?case
  proof (cases "n < 10")
    case True
    then have "m < 10" using bl Itoa_nonempty [of "m div 10"] by (auto simp: butlast_Itoa split: if_splits)
    then show ?thesis using True d by simp
  next
    case False
    then have m: "\<not> m < 10" using bl Itoa_nonempty [of "n div 10"] by (auto simp: butlast_Itoa split: if_splits)
    then have "Itoa (n div 10) = Itoa (m div 10)" using bl False by (simp add: butlast_Itoa)
    moreover have "n div 10 < n" using False by simp
    ultimately have "n div 10 = m div 10" using less.IH by blast
    then show ?thesis using d by (metis div_mult_mod_eq)
  qed
qed

lemma workerNameOf_inj: "workerNameOf appl i = workerNameOf appl j \<Longrightarrow> i = j"
  by (simp add: workerNameOf_def Itoa_inj)

lemma appendVb_pair:
  "appendVb vbs name (m, k) = (m(name \<mapsto> lookupVbs m name @ [word_of_nat (vbs ! k)]), k + 1)"
  by (simp add: appendVb_def)

lemma inner_worker_loop:
  "fold (\<lambda>j. appendVb vbs name) [0..<n] (m, k) =
     ((if n = 0 then m
       else m(name \<mapsto> lookupVbs m name @ map (\<lambda>j. word_of_nat (vbs ! (k + j))) [0..<n])), k + n)"
proof (induction n)
  case 0
  then show ?case by simp
next
  case (Suc n)
  then show ?case by (auto simp: appendVb_pair lookupVbs_def fun_eq_iff)
qed

lemma take_drop_nth: "s + n \<le> length xs \<Longrightarrow> take n (drop s xs) = map (\<lambda>j. xs ! (s + j)) [0..<n]"
  by (intro nth_equalityI) simp_all

lemma outer_worker_loop:
  assumes "0 < wc"
  shows "k \<le> wc \<Longrightarrow>
    (case fold (\<lambda>i st. fold (\<lambda>j. appendVb vbs (workerNameOf appl i)) [0..<blockCount (length vbs) wc i] st)
            [0..<k] (Map.empty, 0) of
       (m, idx) \<Rightarrow> idx = blockStart (length vbs) wc k
          \<and> (\<forall>i<k. lookupVbs m (workerNameOf appl i) = workerBlock vbs wc i)
          \<and> (\<forall>name. (\<forall>i<k. name \<noteq> workerNameOf appl i) \<longrightarrow> m name = None))"
proof (induction k)
  case 0
  then show ?case by (simp add: blockStart_0)
next
  case (Suc k)
  let ?c = "blockCount (length vbs) wc"
  let ?s = "blockStart (length vbs) wc"
  obtain m idx where st:
    "fold (\<lambda>i st. fold (\<lambda>j. appendVb vbs (workerNameOf appl i)) [0..<?c i] st) [0..<k] (Map.empty, 0) = (m, idx)"
    by (cases "fold (\<lambda>i st. fold (\<lambda>j. appendVb vbs (workerNameOf appl i)) [0..<?c i] st) [0..<k] (Map.empty, 0)")
  have k: "k < wc" using Suc.prems by simp
  have idx: "idx = ?s k"
    and old: "\<And>i. i < k \<Longrightarrow> lookupVbs m (workerNameOf appl i) = workerBlock vbs wc i"
    and none: "\<And>name. (\<forall>i<k. name \<noteq> workerNameOf appl i) \<Longrightarrow> m name = None"
    using Suc.IH k st by auto
  have fresh: "m (workerNameOf appl k) = None"
    by (rule none) (auto dest: workerNameOf_inj)
  have rng: "?s k + ?c k \<le> length vbs" using k by (rule block_in_range)
  have blk: "map (\<lambda>j. word_of_nat (vbs ! (?s k + j))) [0..<?c k] = workerBlock vbs wc k"
    using rng by (simp add: workerBlock_def take_drop_nth)
  have empty_blk: "?c k = 0 \<Longrightarrow> workerBlock vbs wc k = []"
    by (simp add: workerBlock_def)
  have nofresh: "lookupVbs m (workerNameOf appl k) = []"
    using fresh by (simp add: lookupVbs_def)
  define m' where "m' = (if ?c k = 0 then m else m(workerNameOf appl k \<mapsto> workerBlock vbs wc k))"
  have step: "fold (\<lambda>i st. fold (\<lambda>j. appendVb vbs (workerNameOf appl i)) [0..<?c i] st) [0..<Suc k] (Map.empty, 0)
                = (m', ?s (Suc k))"
    by (simp add: st inner_worker_loop idx blk nofresh m'_def blockStart_Suc)
  have new: "lookupVbs m' (workerNameOf appl k) = workerBlock vbs wc k"
    using nofresh empty_blk by (simp add: m'_def lookupVbs_def)
  have keep: "lookupVbs m' (workerNameOf appl i) = workerBlock vbs wc i" if "i < k" for i
  proof -
    have "workerNameOf appl i \<noteq> workerNameOf appl k" using that by (auto dest: workerNameOf_inj)
    then show ?thesis using old [OF that] by (simp add: m'_def lookupVbs_def)
  qed
  have c2: "\<forall>i<Suc k. lookupVbs m' (workerNameOf appl i) = workerBlock vbs wc i"
    using new keep by (simp add: less_Suc_eq)
  have c3: "\<forall>name. (\<forall>i<Suc k. name \<noteq> workerNameOf appl i) \<longrightarrow> m' name = None"
    using none by (simp add: m'_def less_Suc_eq)
  show ?case unfolding step using c2 c3 by simp
qed


lemma initWorkerVbMap_blocks:
  assumes "0 < wc"
  shows "\<exists>W. initWorkerVbMap A addr appl wc = Some W
           \<and> (\<forall>w<wc. lookupVbs W (workerNameOf appl w) = workerBlock (vbucketsToHandle A addr) wc w)
           \<and> (\<forall>name. (\<forall>w<wc. name \<noteq> workerNameOf appl w) \<longrightarrow> W name = None)"
proof -
  let ?vbs = "vbucketsToHandle A addr"
  let ?c = "blockCount (length ?vbs) wc"
  have cong: "fold (\<lambda>i st. fold (\<lambda>j. appendVb ?vbs (workerNameOf appl i)) [0..<map ?c [0..<wc] ! i] st) [0..<wc] st0
      = fold (\<lambda>i st. fold (\<lambda>j. appendVb ?vbs (workerNameOf appl i)) [0..<?c i] st) [0..<wc] st0" for st0
    by (rule fold_cong) simp_all
  obtain m idx where st:
    "fold (\<lambda>i st. fold (\<lambda>j. appendVb ?vbs (workerNameOf appl i)) [0..<?c i] st) [0..<wc] (Map.empty, 0) = (m, idx)"
    by (cases "fold (\<lambda>i st. fold (\<lambda>j. appendVb ?vbs (workerNameOf appl i)) [0..<?c i] st) [0..<wc] (Map.empty, 0)")
  have W: "initWorkerVbMap A addr appl wc = Some m"
    using assms by (simp add: initWorkerVbMap_def Let_def splitCounts_eq cong st)
  show ?thesis
    using outer_worker_loop [OF assms, of wc ?vbs appl] st W by simp
qed

lemma concat_blocks_take:
  assumes "s 0 = 0" "\<And>i. s (Suc i) = s i + c i"
  shows "concat (map (\<lambda>i. take (c i) (drop (s i) xs)) [0..<k]) = take (s k) xs"
  using assms by (induction k) (simp_all add: take_add)

lemma concat_workerBlocks:
  assumes "0 < wc"
  shows "concat (map (workerBlock vbs wc) [0..<wc]) = map word_of_nat vbs"
proof -
  have wb: "workerBlock vbs wc = (\<lambda>i. map word_of_nat (take (blockCount (length vbs) wc i)
                                             (drop (blockStart (length vbs) wc i) vbs)))"
    by (rule ext) (simp add: workerBlock_def)
  have "concat (map (workerBlock vbs wc) [0..<wc])
        = map word_of_nat (concat (map (\<lambda>i. take (blockCount (length vbs) wc i)
                                             (drop (blockStart (length vbs) wc i) vbs)) [0..<wc]))"
    unfolding map_concat wb by (simp add: comp_def)
  also have "\<dots> = map word_of_nat (take (blockStart (length vbs) wc wc) vbs)"
    by (subst concat_blocks_take [where s = "blockStart (length vbs) wc"])
       (simp_all add: blockStart_0 blockStart_Suc)
  finally show ?thesis using assms by (simp add: blockStart_parts)
qed

lemma count_list_distinct: "distinct xs \<Longrightarrow> count_list xs x = (if x \<in> set xs then 1 else 0)"
  by (induction xs) auto

lemma vbucketsToHandle_words:
  "distinct (map word_of_nat (vbucketsToHandle A addr) :: vbno list)"
  "set (map word_of_nat (vbucketsToHandle A addr) :: vbno list) = {k. A k = Some addr}"
proof -
  let ?K = "{k. A k = Some addr}"
  have fin: "finite (unat ` ?K)" by simp
  have inj: "inj_on (word_of_nat :: nat \<Rightarrow> vbno) (unat ` ?K)"
    by (rule inj_onI) auto
  show "distinct (map word_of_nat (vbucketsToHandle A addr) :: vbno list)"
    using inj by (simp add: vbucketsToHandle_def distinct_map)
  show "set (map word_of_nat (vbucketsToHandle A addr) :: vbno list) = ?K"
    by (simp add: vbucketsToHandle_def image_image)
qed

lemma worker_cover_once:
  assumes "0 < wc" "initWorkerVbMap A addr appl wc = Some W"
  shows "count_list (concat (map (\<lambda>w. lookupVbs W (workerNameOf appl w)) [0..<wc])) k
           = (if A k = Some addr then 1 else 0)"
proof -
  have blocks: "\<forall>w<wc. lookupVbs W (workerNameOf appl w) = workerBlock (vbucketsToHandle A addr) wc w"
    using initWorkerVbMap_blocks [OF assms(1), of A addr appl] assms(2) by simp
  have "map (\<lambda>w. lookupVbs W (workerNameOf appl w)) [0..<wc]
          = map (workerBlock (vbucketsToHandle A addr) wc) [0..<wc]"
    using blocks by simp
  then have "concat (map (\<lambda>w. lookupVbs W (workerNameOf appl w)) [0..<wc])
               = concat (map (workerBlock (vbucketsToHandle A addr) wc) [0..<wc])"
    by (rule arg_cong)
  then have "concat (map (\<lambda>w. lookupVbs W (workerNameOf appl w)) [0..<wc])
               = map word_of_nat (vbucketsToHandle A addr)"
    by (simp only: concat_workerBlocks [OF assms(1)])
  then show ?thesis
    using vbucketsToHandle_words [of A addr] by (simp add: count_list_distinct)
qed

lemma of_nat_inj_16: "a < 65536 \<Longrightarrow> b < 65536 \<Longrightarrow> (word_of_nat a :: vbno) = word_of_nat b \<Longrightarrow> a = b"
  by (simp add: word_of_nat_eq_iff take_bit_eq_mod)

lemma unat_of_nat_16: "a < 65536 \<Longrightarrow> unat (word_of_nat a :: vbno) = a"
  by (simp add: unat_of_nat)

lemma node_vbucketsToHandle:
  assumes ne: "addrs \<noteq> []" and A: "vbEventingNodeAssign addrs n = Some A"
    and n: "n \<le> 65536" and d: "distinct addrs" and i: "i < length addrs"
  shows "vbucketsToHandle A (addrs ! i)
           = [blockStart n (length addrs) i ..< blockStart n (length addrs) i + blockCount n (length addrs) i]"
proof -
  let ?s = "blockStart n (length addrs)" and ?c = "blockCount n (length addrs)"
  have hi: "?s i + ?c i \<le> n" using i by (rule block_in_range)
  have "unat ` {k. A k = Some (addrs ! i)} = {?s i ..< ?s i + ?c i}"
  proof (intro set_eqI iffI)
    fix p assume "p \<in> unat ` {k. A k = Some (addrs ! i)}"
    then obtain k where k: "A k = Some (addrs ! i)" "p = unat k" by auto
    then have "k \<in> dom A" by auto
    then obtain p' where p': "p' < n" "k = word_of_nat p'"
      using node_dom [OF ne A] by auto
    obtain j where j: "j < length addrs" "?s j \<le> p'" "p' < ?s j + ?c j"
      using node_owner_exists [OF ne p'(1)] by blast
    have "A (word_of_nat p') = Some (addrs ! j)"
      using node_block_general [OF ne A j] n by simp
    then have "addrs ! j = addrs ! i" using k p' by simp
    then have "j = i" using d i j(1) by (simp add: nth_eq_iff_index_eq)
    moreover have "p = p'" using k p' n by (simp add: unat_of_nat_16)
    ultimately show "p \<in> {?s i ..< ?s i + ?c i}" using j by simp
  next
    fix p assume "p \<in> {?s i ..< ?s i + ?c i}"
    then have p: "?s i \<le> p" "p < ?s i + ?c i" by simp_all
    then have "A (word_of_nat p) = Some (addrs ! i)"
      using node_block_general [OF ne A i] n by simp
    moreover have "unat (word_of_nat p :: vbno) = p" using p hi n by (simp add: unat_of_nat_16)
    ultimately show "p \<in> unat ` {k. A k = Some (addrs ! i)}" by (metis (mono_tags, lifting) image_eqI mem_Collect_eq)
  qed
  then show ?thesis by (simp add: vbucketsToHandle_def)
qed

lemma blockCount_balanced: "blockCount n parts i \<le> blockCount n parts j + 1"
  by (simp add: blockCount_def)

lemma sum_blockCount: "0 < parts \<Longrightarrow> (\<Sum>i<parts. blockCount n parts i) = n"
proof -
  have "(\<Sum>i<k. blockCount n parts i) = blockStart n parts k" for k
    by (induction k) (simp_all add: blockStart_0 blockStart_Suc)
  then show "0 < parts \<Longrightarrow> ?thesis" by (simp add: blockStart_parts)
qed

lemma Itoa_digit: "n < 10 \<Longrightarrow> Itoa n = [digit n]"
  by (subst Itoa.simps) simp

lemma length_workerBlock:
  "w < parts \<Longrightarrow> length (workerBlock vbs parts w) = blockCount (length vbs) parts w"
  using block_in_range [of w parts "length vbs"] by (simp add: workerBlock_def)

subsection \<open>Claim C1\<close>

text \<open>
  C1, as stated, fails. The claim is about every number \<open>N\<close> of partitions, but the
  partition counter \<^verbatim>\<open>startVb\<close> and the keys of the map are \<^verbatim>\<open>uint16\<close>. With two members
  and \<open>N = 65537\<close> the last assignment wraps around to key 0: position 0 lies in member
  0's block, and the map gives it to member 1.
\<close>

theorem vbEventingNodeAssign_wraps_counterexample:
  "\<exists>A. vbEventingNodeAssign [''a'', ''b''] 65537 = Some A
       \<and> blockStart 65537 2 0 \<le> 0 \<and> 0 < blockStart 65537 2 0 + blockCount 65537 2 0
       \<and> A (word_of_nat 0) = Some ''b'' \<and> A (word_of_nat 0) \<noteq> Some ([''a'', ''b''] ! 0)"
proof -
  obtain A where A: "vbEventingNodeAssign [''a'', ''b''] 65537 = Some A"
    by (simp add: vbEventingNodeAssign_flat)
  have len: "length [''a'', ''b''] = 2" by simp
  have z: "(word_of_nat 65536 :: 16 word) = 0"
    by (simp add: word_of_nat_eq_0_iff)
  have "A (word_of_nat 65536) = Some ([''a'', ''b''] ! 1)"
  proof (rule node_block_general [OF _ A], unfold len)
    show "blockStart 65537 2 1 \<le> 65536" by (simp add: blockStart_def)
    show "65536 < blockStart 65537 2 1 + blockCount 65537 2 1"
      by (simp add: blockStart_def blockCount_def)
  qed simp_all
  then have "A 0 = Some ([''a'', ''b''] ! 1)" unfolding z .
  then show ?thesis using A by (simp add: blockStart_def blockCount_def)
qed

text \<open>
  C1, amended: for every non-empty list of \<open>m\<close> eventing node addresses, every
  \<open>N \<le> 65536\<close> (partition ids are \<^verbatim>\<open>uint16\<close>) and every worker count \<open>\<ge> 1\<close>,
  \<^verbatim>\<open>vbEventingNodeAssign\<close> returns a map whose keys are exactly the partitions \<open>0..N-1\<close>; the
  positions \<open>blockStart i \<le> p < blockStart i + blockCount i\<close> go to member \<open>i\<close>, where
  \<open>blockCount i = q + (1 if i < r else 0)\<close> and the blocks follow each other from 0; when
  the addresses are distinct, the sorted local partitions of member \<open>i\<close> are exactly that
  block. \<^verbatim>\<open>initWorkerVbMap\<close> gives worker \<open>w\<close> the block \<open>w\<close> of the node's sorted local
  partitions by the same rule, and over all workers of a node every partition of the node
  occurs exactly once and no other partition occurs.
\<close>

theorem planner_two_levels:
  assumes "eventingNodeAddrs \<noteq> []" and "NumVbuckets \<le> 65536" and "1 \<le> nWorkers"
  shows "\<exists>A. vbEventingNodeAssign eventingNodeAddrs NumVbuckets = Some A
    \<and> dom A = word_of_nat ` {0..<NumVbuckets}
    \<and> (\<forall>i<length eventingNodeAddrs. \<forall>p.
          blockStart NumVbuckets (length eventingNodeAddrs) i \<le> p
          \<and> p < blockStart NumVbuckets (length eventingNodeAddrs) i
                  + blockCount NumVbuckets (length eventingNodeAddrs) i
          \<longrightarrow> A (word_of_nat p) = Some (eventingNodeAddrs ! i))
    \<and> (\<Sum>i<length eventingNodeAddrs. blockCount NumVbuckets (length eventingNodeAddrs) i)
          = NumVbuckets
    \<and> (\<forall>i j. blockCount NumVbuckets (length eventingNodeAddrs) i
                \<le> blockCount NumVbuckets (length eventingNodeAddrs) j + 1)
    \<and> (distinct eventingNodeAddrs \<longrightarrow>
          (\<forall>i<length eventingNodeAddrs.
             vbucketsToHandle A (eventingNodeAddrs ! i)
               = [blockStart NumVbuckets (length eventingNodeAddrs) i ..<
                  blockStart NumVbuckets (length eventingNodeAddrs) i
                    + blockCount NumVbuckets (length eventingNodeAddrs) i]))
    \<and> (\<forall>addr appl. \<exists>W. initWorkerVbMap A addr appl nWorkers = Some W
          \<and> (\<forall>w<nWorkers.
                 lookupVbs W (workerNameOf appl w)
                   = workerBlock (vbucketsToHandle A addr) nWorkers w
                 \<and> length (lookupVbs W (workerNameOf appl w))
                   = blockCount (length (vbucketsToHandle A addr)) nWorkers w)
          \<and> (\<forall>k. count_list (concat (map (\<lambda>w. lookupVbs W (workerNameOf appl w)) [0..<nWorkers])) k
                 = (if A k = Some addr then 1 else 0)))"
proof -
  obtain A where A: "vbEventingNodeAssign eventingNodeAddrs NumVbuckets = Some A"
    using assms(1) by (simp add: vbEventingNodeAssign_flat)
  have wc: "0 < nWorkers" using assms(3) by simp
  have m: "0 < length eventingNodeAddrs" using assms(1) by simp
  have c1: "dom A = word_of_nat ` {0..<NumVbuckets}"
    by (rule node_dom [OF assms(1) A])
  have c2: "\<forall>i<length eventingNodeAddrs. \<forall>p.
          blockStart NumVbuckets (length eventingNodeAddrs) i \<le> p
          \<and> p < blockStart NumVbuckets (length eventingNodeAddrs) i
                  + blockCount NumVbuckets (length eventingNodeAddrs) i
          \<longrightarrow> A (word_of_nat p) = Some (eventingNodeAddrs ! i)"
  proof (intro allI impI, elim conjE)
    fix i p
    assume i: "i < length eventingNodeAddrs"
      and lo: "blockStart NumVbuckets (length eventingNodeAddrs) i \<le> p"
      and hi: "p < blockStart NumVbuckets (length eventingNodeAddrs) i
                  + blockCount NumVbuckets (length eventingNodeAddrs) i"
    show "A (word_of_nat p) = Some (eventingNodeAddrs ! i)"
      using node_block_general [OF assms(1) A i lo hi] assms(2) by simp
  qed
  have c3: "(\<Sum>i<length eventingNodeAddrs. blockCount NumVbuckets (length eventingNodeAddrs) i)
          = NumVbuckets"
    by (rule sum_blockCount [OF m])
  have c4: "\<forall>i j. blockCount NumVbuckets (length eventingNodeAddrs) i
                \<le> blockCount NumVbuckets (length eventingNodeAddrs) j + 1"
    by (intro allI) (rule blockCount_balanced)
  have c5: "distinct eventingNodeAddrs \<longrightarrow>
          (\<forall>i<length eventingNodeAddrs.
             vbucketsToHandle A (eventingNodeAddrs ! i)
               = [blockStart NumVbuckets (length eventingNodeAddrs) i ..<
                  blockStart NumVbuckets (length eventingNodeAddrs) i
                    + blockCount NumVbuckets (length eventingNodeAddrs) i])"
    using node_vbucketsToHandle [OF assms(1) A assms(2)] by blast
  have c6: "\<exists>W. initWorkerVbMap A addr appl nWorkers = Some W
          \<and> (\<forall>w<nWorkers.
                 lookupVbs W (workerNameOf appl w)
                   = workerBlock (vbucketsToHandle A addr) nWorkers w
                 \<and> length (lookupVbs W (workerNameOf appl w))
                   = blockCount (length (vbucketsToHandle A addr)) nWorkers w)
          \<and> (\<forall>k. count_list (concat (map (\<lambda>w. lookupVbs W (workerNameOf appl w)) [0..<nWorkers])) k
                 = (if A k = Some addr then 1 else 0))" for addr appl
  proof -
    obtain W where W: "initWorkerVbMap A addr appl nWorkers = Some W"
      and blocks: "\<forall>w<nWorkers. lookupVbs W (workerNameOf appl w)
                 = workerBlock (vbucketsToHandle A addr) nWorkers w"
      using initWorkerVbMap_blocks [OF wc, of A addr appl] by blast
    show ?thesis
      using W blocks worker_cover_once [OF wc W] by (simp add: length_workerBlock)
  qed
  show ?thesis using A c1 c2 c3 c4 c5 c6 by blast
qed

text \<open>Witness for C1 (amended): three nodes, ten partitions, two workers.\<close>

theorem planner_two_levels_witness:
  "[''n0'', ''n1'', ''n2''] \<noteq> [] \<and> (10::nat) \<le> 65536 \<and> (1::nat) \<le> 2
   \<and> (\<exists>A. vbEventingNodeAssign [''n0'', ''n1'', ''n2''] 10 = Some A
          \<and> A 0 = Some ''n0'' \<and> A 3 = Some ''n0'' \<and> A 4 = Some ''n1'' \<and> A 6 = Some ''n1''
          \<and> A 7 = Some ''n2'' \<and> A 9 = Some ''n2'' \<and> A 10 = None
          \<and> vbucketsToHandle A ''n1'' = [4, 5, 6]
          \<and> (\<exists>W. initWorkerVbMap A ''n1'' ''app'' 2 = Some W
                \<and> lookupVbs W ''worker_app_0'' = [4, 5]
                \<and> lookupVbs W ''worker_app_1'' = [6]))"
proof -
  let ?addrs = "[''n0'', ''n1'', ''n2'']"
  have len: "length ?addrs = 3" by simp
  have bs: "blockStart 10 3 0 = 0" "blockStart 10 3 (Suc 0) = 4" "blockStart 10 3 2 = 7"
    and bc: "blockCount 10 3 0 = 4" "blockCount 10 3 (Suc 0) = 3" "blockCount 10 3 2 = 3"
    by (simp_all add: blockStart_def blockCount_def)
  have "\<exists>A. vbEventingNodeAssign ?addrs 10 = Some A
    \<and> dom A = word_of_nat ` {0..<10}
    \<and> (\<forall>i<3. \<forall>p. blockStart 10 3 i \<le> p \<and> p < blockStart 10 3 i + blockCount 10 3 i
           \<longrightarrow> A (word_of_nat p) = Some (?addrs ! i))
    \<and> (\<Sum>i<3. blockCount 10 3 i) = 10
    \<and> (\<forall>i j. blockCount 10 3 i \<le> blockCount 10 3 j + 1)
    \<and> (\<forall>i<3. vbucketsToHandle A (?addrs ! i)
               = [blockStart 10 3 i ..< blockStart 10 3 i + blockCount 10 3 i])
    \<and> (\<forall>addr appl. \<exists>W. initWorkerVbMap A addr appl 2 = Some W
          \<and> (\<forall>w<2. lookupVbs W (workerNameOf appl w) = workerBlock (vbucketsToHandle A addr) 2 w
                  \<and> length (lookupVbs W (workerNameOf appl w))
                      = blockCount (length (vbucketsToHandle A addr)) 2 w)
          \<and> (\<forall>k. count_list (concat (map (\<lambda>w. lookupVbs W (workerNameOf appl w)) [0..<2])) k
                 = (if A k = Some addr then 1 else 0)))"
    using planner_two_levels [of ?addrs 10 2] unfolding len by simp
  then obtain A where A: "vbEventingNodeAssign ?addrs 10 = Some A"
    and dom: "dom A = word_of_nat ` {0..<10}"
    and blocks: "\<forall>i<3. \<forall>p. blockStart 10 3 i \<le> p \<and> p < blockStart 10 3 i + blockCount 10 3 i
                   \<longrightarrow> A (word_of_nat p) = Some (?addrs ! i)"
    and local: "\<forall>i<3. vbucketsToHandle A (?addrs ! i)
                   = [blockStart 10 3 i ..< blockStart 10 3 i + blockCount 10 3 i]"
    and workers: "\<forall>addr appl. \<exists>W. initWorkerVbMap A addr appl 2 = Some W
          \<and> (\<forall>w<2. lookupVbs W (workerNameOf appl w) = workerBlock (vbucketsToHandle A addr) 2 w
                  \<and> length (lookupVbs W (workerNameOf appl w))
                      = blockCount (length (vbucketsToHandle A addr)) 2 w)
          \<and> (\<forall>k. count_list (concat (map (\<lambda>w. lookupVbs W (workerNameOf appl w)) [0..<2])) k
                 = (if A k = Some addr then 1 else 0))"
    by blast
  have a0: "A 0 = Some ''n0''" using blocks [rule_format, of 0 0] by (simp add: bs bc)
  have a3: "A 3 = Some ''n0''" using blocks [rule_format, of 0 3] by (simp add: bs bc)
  have a4: "A 4 = Some ''n1''" using blocks [rule_format, of 1 4] by (simp add: bs bc)
  have a6: "A 6 = Some ''n1''" using blocks [rule_format, of 1 6] by (simp add: bs bc)
  have a7: "A 7 = Some ''n2''" using blocks [rule_format, of 2 7] by (simp add: bs bc)
  have a9: "A 9 = Some ''n2''" using blocks [rule_format, of 2 9] by (simp add: bs bc)
  have "(10 :: vbno) \<notin> word_of_nat ` {0..<10}"
  proof
    assume "(10 :: vbno) \<in> word_of_nat ` {0..<10}"
    then obtain p where "p < 10" "(word_of_nat p :: vbno) = word_of_nat 10" by auto
    then show False using of_nat_inj_16 [of p 10] by simp
  qed
  then have a10: "A 10 = None" using dom by blast
  have vbs: "vbucketsToHandle A ''n1'' = [4, 5, 6]"
    using local [rule_format, of 1] by (simp add: bs bc upt_rec)
  obtain W where W: "initWorkerVbMap A ''n1'' ''app'' 2 = Some W"
    and wb: "\<forall>w<2. lookupVbs W (workerNameOf ''app'' w) = workerBlock [4, 5, 6] 2 w"
    using workers [rule_format, of "''n1''" "''app''"] unfolding vbs by blast
  have w0: "lookupVbs W ''worker_app_0'' = [4, 5]"
    using wb [rule_format, of 0] by (simp add: workerNameOf_def Itoa_digit digit_def workerBlock_def blockStart_def blockCount_def)
  have w1: "lookupVbs W ''worker_app_1'' = [6]"
    using wb [rule_format, of 1] by (simp add: workerNameOf_def Itoa_digit digit_def workerBlock_def blockStart_def blockCount_def)
  show ?thesis using A a0 a3 a4 a6 a7 a9 a10 vbs W w0 w1 by simp
qed


section \<open>Proofs: vbucket takeover and give-up\<close>

lemma streamStartSeqNo_min:
  "streamStartSeqNo b = min (LastSeqNoProcessed b) (LastDocTimerFeedbackSeqNo b)"
  by (auto simp: streamStartSeqNo_def min_def)

lemma retry_graceful_iff:
  "retryVbMetaStateCheck c rounds = Some (GracefulExit, k) \<longleftrightarrow>
     (k < length rounds
      \<and> (\<forall>j<k. \<not> snd (rounds ! j) \<and> retryCondition c (fst (rounds ! j)))
      \<and> \<not> snd (rounds ! k) \<and> \<not> retryCondition c (fst (rounds ! k)))"
proof (induction rounds arbitrary: k)
  case Nil
  then show ?case by simp
next
  case (Cons r rs)
  obtain b stop where r: "r = (b, stop)" by (cases r)
  show ?case
  proof (cases k)
    case 0
    then show ?thesis using r by (auto split: option.splits)
  next
    case (Suc k')
    then show ?thesis using r Cons.IH [of k']
      by (auto simp: All_less_Suc2 split: option.splits)
  qed
qed

lemma retry_stop_iff:
  "retryVbMetaStateCheck c rounds = Some (StopSignalled, k) \<longleftrightarrow>
     (k < length rounds
      \<and> (\<forall>j<k. \<not> snd (rounds ! j) \<and> retryCondition c (fst (rounds ! j)))
      \<and> snd (rounds ! k))"
proof (induction rounds arbitrary: k)
  case Nil
  then show ?case by simp
next
  case (Cons r rs)
  obtain b stop where r: "r = (b, stop)" by (cases r)
  show ?case
  proof (cases k)
    case 0
    then show ?thesis using r by (auto split: option.splits)
  next
    case (Suc k')
    then show ?thesis using r Cons.IH [of k']
      by (auto simp: All_less_Suc2 split: option.splits)
  qed
qed

lemma effects_updateVbStat [simp]: "effects (updateVbStat c vb k v) = effects c"
  by (simp add: updateVbStat_def)

lemma requested_updateVbStat [simp]: "vbStreamRequested (updateVbStat c vb k v) = vbStreamRequested c"
  by (simp add: updateVbStat_def)

lemma effects_emit [simp]: "effects (emit c e) = effects c @ [e]"
  by (simp add: emit_def)

lemma requested_emit [simp]: "vbStreamRequested (emit c e) = vbStreamRequested c"
  by (simp add: emit_def)

lemma ex_no_request: "\<exists>rest. \<forall>v s. DcpRequestStream v s \<notin> set rest"
  by (rule exI [of _ "[]"]) simp

lemma update_effects:
  "\<exists>rest. effects (snd (updateVbOwnerAndStartDCPStream env c vbKey vb vbBlob)) =
      effects c @ (if vb \<in> vbStreamRequested c then []
                   else DcpRequestStream vb (min (LastSeqNoProcessed vbBlob) (LastDocTimerFeedbackSeqNo vbBlob)) # rest)
    \<and> (\<forall>v s. DcpRequestStream v s \<notin> set rest)"
  by (auto simp: updateVbOwnerAndStartDCPStream_def Let_def streamStartSeqNo_min ex_no_request split: option.splits)

lemma update_noop:
  "vb \<in> vbStreamRequested c \<Longrightarrow> updateVbOwnerAndStartDCPStream env c vbKey vb vbBlob = (None, c)"
  by (simp add: updateVbOwnerAndStartDCPStream_def)

lemma update_inserted:
  "vb \<notin> vbStreamRequested c \<Longrightarrow>
     vbStreamRequested (snd (updateVbOwnerAndStartDCPStream env c vbKey vb vbBlob)) =
       (if dcpRequestStreamHandle env vb vbBlob (streamStartSeqNo vbBlob) = None
        then insert vb (vbStreamRequested c) else vbStreamRequested c)"
  by (auto simp: updateVbOwnerAndStartDCPStream_def Let_def split: option.splits)


lemma stats_emit [simp]: "vbProcessingStats (emit c e) = vbProcessingStats c"
  by (simp add: emit_def)

subsection \<open>Claims C2 and C10: the dispatch of doVbTakeover\<close>

text \<open>
  C2. With the blob read from the metadata store: (1) status running, the blob's node
  UUID and worker equal to this consumer's: success, consumer unchanged; (2) status
  running, owner on another node that the oracle reports alive:
  \<^verbatim>\<open>errVbOwnedByAnotherNode\<close>, consumer unchanged; (3) status running, owner on another
  node that is dead per the oracle, and the planner assigns the partition to this node:
  the result is that of \<^verbatim>\<open>updateVbOwnerAndStartDCPStream\<close>; (4) status stopped or
  uninitialised: the same; (5) any other status: \<^verbatim>\<open>errUnexpectedVbStreamStatus\<close>.
\<close>

theorem doVbTakeover_dispatch:
  "(let vbBlob = getOp env (vbKeyOf c vb) in
     (DCPStreamStatus vbBlob = dcpStreamRunning \<and> NodeUUID vbBlob = uuid c
        \<and> AssignedWorker vbBlob = workerName c
        \<longrightarrow> snd (doVbTakeover env c vb) = (None, c))
   \<and> (DCPStreamStatus vbBlob = dcpStreamRunning \<and> NodeUUID vbBlob \<noteq> uuid c
        \<and> IsEventingNodeAlive c (CurrentVBOwner vbBlob) (NodeUUID vbBlob)
        \<longrightarrow> snd (doVbTakeover env c vb) = (Some errVbOwnedByAnotherNode, c))
   \<and> (DCPStreamStatus vbBlob = dcpStreamRunning \<and> NodeUUID vbBlob \<noteq> uuid c
        \<and> \<not> IsEventingNodeAlive c (CurrentVBOwner vbBlob) (NodeUUID vbBlob)
        \<and> checkIfCurrentNodeShouldOwnVb c vb
        \<longrightarrow> snd (doVbTakeover env c vb)
              = updateVbOwnerAndStartDCPStream env c (vbKeyOf c vb) vb vbBlob)
   \<and> (DCPStreamStatus vbBlob = dcpStreamStopped \<or> DCPStreamStatus vbBlob = dcpStreamUninitialised
        \<longrightarrow> snd (doVbTakeover env c vb)
              = updateVbOwnerAndStartDCPStream env c (vbKeyOf c vb) vb vbBlob)
   \<and> (DCPStreamStatus vbBlob \<noteq> dcpStreamRunning \<and> DCPStreamStatus vbBlob \<noteq> dcpStreamStopped
        \<and> DCPStreamStatus vbBlob \<noteq> dcpStreamUninitialised
        \<longrightarrow> snd (doVbTakeover env c vb) = (Some errUnexpectedVbStreamStatus, c)))"
  by (simp add: doVbTakeover_def Let_def dcpStreamRunning_def dcpStreamStopped_def
      dcpStreamUninitialised_def)

text \<open>Witness for C2: one blob for each of the five cases, on the example consumer
  (node \<open>uuid-B\<close> is alive, node \<open>uuid-C\<close> is dead).\<close>

theorem doVbTakeover_dispatch_witness:
  "snd (doVbTakeover (demoTakeoverEnv (demoBlob ''running'' ''uuid-A'' ''worker_app1_0'' ''10.0.0.1:8096''))
          demoConsumer 7) = (None, demoConsumer)
   \<and> snd (doVbTakeover (demoTakeoverEnv (demoBlob ''running'' ''uuid-B'' ''worker_app1_0'' ''10.0.0.2:8096''))
          demoConsumer 7) = (Some errVbOwnedByAnotherNode, demoConsumer)
   \<and> snd (doVbTakeover (demoTakeoverEnv (demoBlob ''running'' ''uuid-C'' ''worker_app1_0'' ''10.0.0.3:8096''))
          demoConsumer 7)
       = updateVbOwnerAndStartDCPStream
           (demoTakeoverEnv (demoBlob ''running'' ''uuid-C'' ''worker_app1_0'' ''10.0.0.3:8096''))
           demoConsumer (vbKeyOf demoConsumer 7) 7
           (demoBlob ''running'' ''uuid-C'' ''worker_app1_0'' ''10.0.0.3:8096'')
   \<and> snd (doVbTakeover (demoTakeoverEnv (demoBlob ''stopped'' [] [] [])) demoConsumer 7)
       = updateVbOwnerAndStartDCPStream (demoTakeoverEnv (demoBlob ''stopped'' [] [] []))
           demoConsumer (vbKeyOf demoConsumer 7) 7 (demoBlob ''stopped'' [] [] [])
   \<and> snd (doVbTakeover (demoTakeoverEnv (demoBlob ''paused'' [] [] [])) demoConsumer 7)
       = (Some errUnexpectedVbStreamStatus, demoConsumer)"
  using
    doVbTakeover_dispatch [of "demoTakeoverEnv (demoBlob ''running'' ''uuid-A'' ''worker_app1_0'' ''10.0.0.1:8096'')" demoConsumer 7]
    doVbTakeover_dispatch [of "demoTakeoverEnv (demoBlob ''running'' ''uuid-B'' ''worker_app1_0'' ''10.0.0.2:8096'')" demoConsumer 7]
    doVbTakeover_dispatch [of "demoTakeoverEnv (demoBlob ''running'' ''uuid-C'' ''worker_app1_0'' ''10.0.0.3:8096'')" demoConsumer 7]
    doVbTakeover_dispatch [of "demoTakeoverEnv (demoBlob ''stopped'' [] [] [])" demoConsumer 7]
    doVbTakeover_dispatch [of "demoTakeoverEnv (demoBlob ''paused'' [] [] [])" demoConsumer 7]
  by (simp add: Let_def demoTakeoverEnv_def demoBlob_def demoConsumer_def
      dcpStreamRunning_def dcpStreamStopped_def dcpStreamUninitialised_def
      checkIfCurrentNodeShouldOwnVb_def)

text \<open>
  C10. No call leaves \<^verbatim>\<open>doVbTakeover\<close> through the \<^verbatim>\<open>return\<close> of line 297 or of line 309:
  both sit under the guard \<^verbatim>\<open>c.NodeUUID() != vbBlob.NodeUUID\<close> and test the opposite. When
  the status is running, the blob does not name this consumer, the owning node differs
  from this node and is dead per the oracle, and the planner assigns the partition to this
  node, the call leaves through line 311 with the result of
  \<^verbatim>\<open>updateVbOwnerAndStartDCPStream\<close>.
\<close>

theorem doVbTakeover_dead_owner_path:
  "fst (doVbTakeover env c vb) \<noteq> Line297
   \<and> fst (doVbTakeover env c vb) \<noteq> Line309
   \<and> (let vbBlob = getOp env (vbKeyOf c vb) in
        DCPStreamStatus vbBlob = dcpStreamRunning
        \<and> uuid c \<noteq> NodeUUID vbBlob
        \<and> \<not> IsEventingNodeAlive c (CurrentVBOwner vbBlob) (NodeUUID vbBlob)
        \<and> checkIfCurrentNodeShouldOwnVb c vb
        \<longrightarrow> doVbTakeover env c vb
              = (Line311, updateVbOwnerAndStartDCPStream env c (vbKeyOf c vb) vb vbBlob))"
  by (auto simp: doVbTakeover_def Let_def dcpStreamRunning_def dcpStreamStopped_def
      dcpStreamUninitialised_def)

text \<open>Witness for C10: the blob of a dead node \<open>uuid-C\<close>.\<close>

theorem doVbTakeover_dead_owner_path_witness:
  "DCPStreamStatus (demoBlob ''running'' ''uuid-C'' ''worker_app1_0'' ''10.0.0.3:8096'') = dcpStreamRunning
   \<and> uuid demoConsumer \<noteq> NodeUUID (demoBlob ''running'' ''uuid-C'' ''worker_app1_0'' ''10.0.0.3:8096'')
   \<and> \<not> IsEventingNodeAlive demoConsumer ''10.0.0.3:8096'' ''uuid-C''
   \<and> checkIfCurrentNodeShouldOwnVb demoConsumer 7
   \<and> doVbTakeover (demoTakeoverEnv (demoBlob ''running'' ''uuid-C'' ''worker_app1_0'' ''10.0.0.3:8096''))
        demoConsumer 7
       = (Line311,
          updateVbOwnerAndStartDCPStream
            (demoTakeoverEnv (demoBlob ''running'' ''uuid-C'' ''worker_app1_0'' ''10.0.0.3:8096''))
            demoConsumer (vbKeyOf demoConsumer 7) 7
            (demoBlob ''running'' ''uuid-C'' ''worker_app1_0'' ''10.0.0.3:8096''))"
  using doVbTakeover_dead_owner_path
    [of "demoTakeoverEnv (demoBlob ''running'' ''uuid-C'' ''worker_app1_0'' ''10.0.0.3:8096'')" demoConsumer 7]
  by (simp add: Let_def demoTakeoverEnv_def demoBlob_def demoConsumer_def
      dcpStreamRunning_def checkIfCurrentNodeShouldOwnVb_def)

subsection \<open>Claim C3: the poll loop of the give-up routine\<close>

text \<open>
  C3, as stated, fails. The claim: the loop is left exactly when the status is not
  running, or when neither the node UUID nor the worker of the blob is this consumer's.
  The code polls again under exactly the first condition (line 163, and the comment
  above it): a round that reads a stopped blob is followed by another round. And a
  running blob on another node that still names this worker (only one of the two fields
  differs) ends the loop.
\<close>

theorem retryVbMetaStateCheck_counterexample:
  "DCPStreamStatus (demoBlob ''stopped'' [] [] []) \<noteq> dcpStreamRunning
   \<and> retryVbMetaStateCheck demoConsumer [(demoBlob ''stopped'' [] [] [], False)] = None
   \<and> AssignedWorker (demoBlob ''running'' ''uuid-B'' ''worker_app1_0'' ''10.0.0.2:8096'')
       = workerName demoConsumer
   \<and> retryVbMetaStateCheck demoConsumer
        [(demoBlob ''running'' ''uuid-B'' ''worker_app1_0'' ''10.0.0.2:8096'', False)]
       = Some (GracefulExit, 0)"
  by (simp add: retryCondition_def demoBlob_def demoConsumer_def dcpStreamRunning_def)

text \<open>
  C3, amended. Every round reads the blob and then looks at \<^verbatim>\<open>stopVbOwnerGiveupCh\<close>. The
  routine returns at round \<open>k\<close> on the stop signal exactly when that round is the first
  with a signal and every earlier round asked for a retry. The loop is left gracefully at
  round \<open>k\<close> exactly when no round up to \<open>k\<close> had a signal, every earlier round asked for
  a retry, and round \<open>k\<close> reads a blob whose status is running and whose node UUID and
  worker are not both this consumer's. A round asks for a retry exactly when the status
  is not running or the blob still names this consumer.
\<close>

theorem retryVbMetaStateCheck_exits:
  "(retryVbMetaStateCheck c rounds = Some (GracefulExit, k) \<longleftrightarrow>
      k < length rounds
      \<and> (\<forall>j<k. \<not> snd (rounds ! j) \<and> retryCondition c (fst (rounds ! j)))
      \<and> \<not> snd (rounds ! k)
      \<and> DCPStreamStatus (fst (rounds ! k)) = dcpStreamRunning
      \<and> \<not> (NodeUUID (fst (rounds ! k)) = uuid c \<and> AssignedWorker (fst (rounds ! k)) = workerName c))
   \<and> (retryVbMetaStateCheck c rounds = Some (StopSignalled, k) \<longleftrightarrow>
      k < length rounds
      \<and> (\<forall>j<k. \<not> snd (rounds ! j) \<and> retryCondition c (fst (rounds ! j)))
      \<and> snd (rounds ! k))
   \<and> (retryCondition c vbBlob \<longleftrightarrow>
      DCPStreamStatus vbBlob \<noteq> dcpStreamRunning
      \<or> (NodeUUID vbBlob = uuid c \<and> AssignedWorker vbBlob = workerName c))"
  using retry_graceful_iff [of c rounds k] retry_stop_iff [of c rounds k]
  by (auto simp: retryCondition_def)

text \<open>Witness for C3 (amended): two rounds that still name this consumer, then a round
  that reads a running blob of node \<open>uuid-B\<close>.\<close>

theorem retryVbMetaStateCheck_exits_witness:
  "retryVbMetaStateCheck demoConsumer
     [(demoBlob ''running'' ''uuid-A'' ''worker_app1_0'' ''10.0.0.1:8096'', False),
      (demoBlob ''stopped'' [] [] [], False),
      (demoBlob ''running'' ''uuid-B'' ''worker_app1_1'' ''10.0.0.2:8096'', False)]
     = Some (GracefulExit, 2)
   \<and> retryVbMetaStateCheck demoConsumer
     [(demoBlob ''stopped'' [] [] [], False), (demoBlob ''stopped'' [] [] [], True)]
     = Some (StopSignalled, 1)"
  using
    retryVbMetaStateCheck_exits [of demoConsumer
      "[(demoBlob ''running'' ''uuid-A'' ''worker_app1_0'' ''10.0.0.1:8096'', False),
        (demoBlob ''stopped'' [] [] [], False),
        (demoBlob ''running'' ''uuid-B'' ''worker_app1_1'' ''10.0.0.2:8096'', False)]" 2]
    retryVbMetaStateCheck_exits [of demoConsumer
      "[(demoBlob ''stopped'' [] [] [], False), (demoBlob ''stopped'' [] [] [], True)]" 1]
  by (simp add: retryCondition_def demoBlob_def demoConsumer_def dcpStreamRunning_def)

subsection \<open>Claims C4 and C5: updateVbOwnerAndStartDCPStream\<close>

text \<open>
  C4. The sequence number computed at lines 366--371 is the minimum of the blob's
  \<^verbatim>\<open>LastSeqNoProcessed\<close> and \<^verbatim>\<open>LastDocTimerFeedbackSeqNo\<close>, and a call adds at most one stream
  request to the calls made so far: none when the partition is already in
  \<^verbatim>\<open>vbStreamRequested\<close>, otherwise one, for this partition and from that minimum.
\<close>

theorem updateVbOwnerAndStartDCPStream_start_seq:
  "streamStartSeqNo vbBlob = min (LastSeqNoProcessed vbBlob) (LastDocTimerFeedbackSeqNo vbBlob)
   \<and> (\<exists>rest. effects (snd (updateVbOwnerAndStartDCPStream env c vbKey vb vbBlob)) =
         effects c @ (if vb \<in> vbStreamRequested c then []
                      else DcpRequestStream vb
                             (min (LastSeqNoProcessed vbBlob) (LastDocTimerFeedbackSeqNo vbBlob)) # rest)
       \<and> (\<forall>v s. DcpRequestStream v s \<notin> set rest))"
  using update_effects [of env c vbKey vb vbBlob] by (simp add: streamStartSeqNo_min)

text \<open>
  C5. When the partition is already in \<^verbatim>\<open>vbStreamRequested\<close>, the call returns success and
  leaves the consumer as it was: no stats update, no call to another component. When it
  is absent, the call goes on: it issues the stream request, and the partition is in the
  set afterwards exactly when the request succeeded (a failed request removes it again).
\<close>

theorem updateVbOwnerAndStartDCPStream_idempotent:
  "(vb \<in> vbStreamRequested c \<longrightarrow>
      updateVbOwnerAndStartDCPStream env c vbKey vb vbBlob = (None, c))
   \<and> (vb \<notin> vbStreamRequested c \<longrightarrow>
      (\<exists>rest. effects (snd (updateVbOwnerAndStartDCPStream env c vbKey vb vbBlob))
                = effects c @ DcpRequestStream vb (streamStartSeqNo vbBlob) # rest)
      \<and> (vb \<in> vbStreamRequested (snd (updateVbOwnerAndStartDCPStream env c vbKey vb vbBlob))
           \<longleftrightarrow> dcpRequestStreamHandle env vb vbBlob (streamStartSeqNo vbBlob) = None))"
proof -
  have "\<exists>rest. effects (snd (updateVbOwnerAndStartDCPStream env c vbKey vb vbBlob))
                = effects c @ DcpRequestStream vb (streamStartSeqNo vbBlob) # rest"
    if "vb \<notin> vbStreamRequested c"
    using update_effects [of env c vbKey vb vbBlob] that by (auto simp: streamStartSeqNo_min)
  then show ?thesis
    by (simp add: update_noop update_inserted)
qed

text \<open>Witness for C5: a second call for partition 7 after a first one that succeeded,
  and the first call itself.\<close>

theorem updateVbOwnerAndStartDCPStream_idempotent_witness:
  "(7 :: vbno) \<in> vbStreamRequested (demoConsumer\<lparr>vbStreamRequested := {7}\<rparr>)
   \<and> updateVbOwnerAndStartDCPStream (demoTakeoverEnv (demoBlob ''stopped'' [] [] []))
        (demoConsumer\<lparr>vbStreamRequested := {7}\<rparr>) ''app1::vb::7'' 7 (demoBlob ''stopped'' [] [] [])
       = (None, demoConsumer\<lparr>vbStreamRequested := {7}\<rparr>)
   \<and> (7 :: vbno) \<notin> vbStreamRequested demoConsumer
   \<and> (7 :: vbno) \<in> vbStreamRequested
        (snd (updateVbOwnerAndStartDCPStream (demoTakeoverEnv (demoBlob ''stopped'' [] [] []))
                demoConsumer ''app1::vb::7'' 7 (demoBlob ''stopped'' [] [] [])))"
  using
    updateVbOwnerAndStartDCPStream_idempotent
      [of 7 "demoConsumer\<lparr>vbStreamRequested := {7}\<rparr>" "demoTakeoverEnv (demoBlob ''stopped'' [] [] [])"
          "''app1::vb::7''" "demoBlob ''stopped'' [] [] []"]
    updateVbOwnerAndStartDCPStream_idempotent
      [of 7 demoConsumer "demoTakeoverEnv (demoBlob ''stopped'' [] [] [])"
          "''app1::vb::7''" "demoBlob ''stopped'' [] [] []"]
  by (simp add: demoConsumer_def demoTakeoverEnv_def)

subsection \<open>Claim C7: the give-up checkpoint\<close>

text \<open>
  C7. The blob that \<^verbatim>\<open>updateCheckpoint\<close> hands to the metadata store has status stopped,
  empty owner fields (assigned worker, current owner, node UUID, doc-timer worker), the
  previous-owner fields set to this consumer's name, eventing directory, node UUID and
  address, and the checkpoint time set to the current time; the two sequence numbers and
  every field not named here are those of the blob before the call. It is the blob of
  the one store update the call makes.
\<close>

theorem updateCheckpoint_blob:
  "DCPStreamStatus (fst (updateCheckpoint env c vbKey vb vbBlob)) = dcpStreamStopped
   \<and> AssignedWorker (fst (updateCheckpoint env c vbKey vb vbBlob)) = []
   \<and> CurrentVBOwner (fst (updateCheckpoint env c vbKey vb vbBlob)) = []
   \<and> NodeUUID (fst (updateCheckpoint env c vbKey vb vbBlob)) = []
   \<and> AssignedDocIDTimerWorker (fst (updateCheckpoint env c vbKey vb vbBlob)) = []
   \<and> PreviousAssignedWorker (fst (updateCheckpoint env c vbKey vb vbBlob)) = workerName c
   \<and> PreviousEventingDir (fst (updateCheckpoint env c vbKey vb vbBlob)) = eventingDir c
   \<and> PreviousNodeUUID (fst (updateCheckpoint env c vbKey vb vbBlob)) = uuid c
   \<and> PreviousVBOwner (fst (updateCheckpoint env c vbKey vb vbBlob)) = hostPortAddr c
   \<and> LastCheckpointTime (fst (updateCheckpoint env c vbKey vb vbBlob)) = timeNow env
   \<and> LastSeqNoProcessed (fst (updateCheckpoint env c vbKey vb vbBlob)) = LastSeqNoProcessed vbBlob
   \<and> LastDocTimerFeedbackSeqNo (fst (updateCheckpoint env c vbKey vb vbBlob))
       = LastDocTimerFeedbackSeqNo vbBlob
   \<and> vbucketKVBlob.more (fst (updateCheckpoint env c vbKey vb vbBlob)) = vbucketKVBlob.more vbBlob
   \<and> effects (snd (updateCheckpoint env c vbKey vb vbBlob))
       = effects c @ [UpdateCheckpointOp vbKey (fst (updateCheckpoint env c vbKey vb vbBlob))]"
  by (simp add: updateCheckpoint_def Let_def)

section \<open>Proofs: settings loader\<close>

lemma bindRes_Ok_iff: "bindRes r f = Ok y \<longleftrightarrow> (\<exists>x. r = Ok x \<and> f x = Ok y)"
  by (cases r) (simp_all add: bindRes_def)

lemma bindRes_simps [simp]:
  "bindRes Panic f = Panic" "bindRes (Err e) f = Err e" "bindRes (Ok x) f = f x"
  by (simp_all add: bindRes_def)

lemma mapRes_simps [simp]:
  "mapRes g Panic = Panic" "mapRes g (Err e) = Err e" "mapRes g (Ok x) = Ok (g x)"
  by (simp_all add: mapRes_def)

lemma mapRes_bindRes: "mapRes g (bindRes r f) = bindRes r (\<lambda>x. mapRes g (f x))"
  by (cases r) simp_all

lemma runSteps_Nil [simp]: "runSteps [] p = Ok p"
  by (simp add: runSteps_def)

lemma fold_bindRes_fail [simp]:
  "fold (\<lambda>step r. bindRes r step) steps Panic = Panic"
  "fold (\<lambda>step r. bindRes r step) steps (Err e) = Err e"
  by (induction steps) simp_all

lemma runSteps_Cons [simp]: "runSteps (step # steps) p = bindRes (step p) (runSteps steps)"
  by (cases "step p") (simp_all add: runSteps_def)

lemma runSteps_append: "runSteps (xs @ ys) p = bindRes (runSteps xs p) (runSteps ys)"
proof (induction xs arbitrary: p)
  case Nil
  then show ?case by simp
next
  case (Cons x xs)
  then show ?case by (cases "x p") simp_all
qed

lemma runSteps_Ok_mem:
  "runSteps steps p = Ok p' \<Longrightarrow> step \<in> set steps \<Longrightarrow> \<exists>q q'. step q = Ok q'"
proof (induction steps arbitrary: p)
  case Nil
  then show ?case by simp
next
  case (Cons x xs)
  then show ?case by (cases "x p") auto
qed


lemma assign_fail [simp]: "assign Panic upd p = Panic" "assign (Err e) upd p = Err e"
  by (simp_all add: assign_def)

lemma parseSettings_log_level_absent:
  "settings ''log_level'' = None \<Longrightarrow> parseSettings env p settings \<noteq> Ok p'"
proof
  assume a: "settings ''log_level'' = None" and ok: "parseSettings env p settings = Ok p'"
  have mem: "assign (assertString (settings ''log_level'')) (\<lambda>logLevel' p. p) \<in> set (settingsSteps env settings)"
    by (simp add: settingsSteps_def Let_def)
  show False
    using runSteps_Ok_mem [OF ok [unfolded parseSettings_def] mem] a
    by (simp add: assertString_def)
qed

lemma parseSettings_rbacuser_absent:
  "settings ''rbacuser'' = None \<Longrightarrow> parseSettings env p settings \<noteq> Ok p'"
proof
  assume a: "settings ''rbacuser'' = None" and ok: "parseSettings env p settings = Ok p'"
  have mem: "assign (if settings ''rbacuser'' = None then Err ''rbac username missing''
               else assertString (settings ''rbacuser'')) (\<lambda>v. rbacUser_update (\<lambda>_. v))
             \<in> set (settingsSteps env settings)"
    by (simp add: settingsSteps_def Let_def)
  show False
    using runSteps_Ok_mem [OF ok [unfolded parseSettings_def] mem] a by simp
qed

lemma parseSettings_rbacpass_absent:
  "settings ''rbacpass'' = None \<Longrightarrow> parseSettings env p settings \<noteq> Ok p'"
proof
  assume a: "settings ''rbacpass'' = None" and ok: "parseSettings env p settings = Ok p'"
  have mem: "assign (if settings ''rbacpass'' = None then Err ''rbac password missing''
               else assertString (settings ''rbacpass'')) (\<lambda>v. rbacPass_update (\<lambda>_. v))
             \<in> set (settingsSteps env settings)"
    by (simp add: settingsSteps_def Let_def)
  show False
    using runSteps_Ok_mem [OF ok [unfolded parseSettings_def] mem] a by simp
qed

lemma parseSettings_defaults:
  "parseSettings env p [''rbacuser'' \<mapsto> JString u, ''rbacpass'' \<mapsto> JString pw, ''log_level'' \<mapsto> JString l]
     = Ok (p\<lparr>cleanupTimers := False, dcpStreamBoundary := ''everything'', logLevel := l,
             statsTickDuration := 5000, workerCount := 3, timerWorkerPoolSize := 3,
             socketWriteBatchSize := 100, skipTimerThreshold := 86400, rbacUser := u,
             rbacPass := pw, lcbInstCapacity := 5, enableRecursiveMutation := False,
             socketTimeout := 2000000000, vbOwnershipGiveUpRoutineCount := 3,
             vbOwnershipTakeoverRoutineCount := 3, executionTimeout := 1, fuzzOffset := 30,
             cppWorkerThrCount := 1, plasmaMemQuota := 256, xattrEntryPruneThreshold := 100,
             appLogPath := p_eventingDir p @ ''/'' @ p_appName p @ ''.log'',
             appLogMaxSize := 10485760, appLogMaxFiles := 10, curlTimeout := 500,
             workerQueueCap := 1000000,
             app := (app p)\<lparr>Settings := [''rbacuser'' \<mapsto> JString u, ''rbacpass'' \<mapsto> JString pw,
                                           ''log_level'' \<mapsto> JString l]\<rparr>\<rparr>)"
  by (simp add: parseSettings_def settingsSteps_def Let_def assign_def boolSetting_def
      stringSetting_def intSetting_def assertString_def)

lemma parseSettings_without_log_level:
  "parseSettings env p [''rbacuser'' \<mapsto> JString u, ''rbacpass'' \<mapsto> JString pw] = Panic"
  by (simp add: parseSettings_def settingsSteps_def Let_def assign_def boolSetting_def
      stringSetting_def intSetting_def assertString_def)

lemma parseSettings_without_rbacuser:
  "parseSettings env p [''rbacpass'' \<mapsto> JString pw, ''log_level'' \<mapsto> JString l]
     = Err ''rbac username missing''"
  by (simp add: parseSettings_def settingsSteps_def Let_def assign_def boolSetting_def
      stringSetting_def intSetting_def assertString_def)

lemma parseSettings_without_rbacpass:
  "parseSettings env p [''rbacuser'' \<mapsto> JString u, ''log_level'' \<mapsto> JString l]
     = Err ''rbac password missing''"
  by (simp add: parseSettings_def settingsSteps_def Let_def assign_def boolSetting_def
      stringSetting_def intSetting_def assertString_def)








lemma parseDepcfg_settings:
  "metakvSettings env = Inr sData \<Longrightarrow> jsonUnmarshal env sData = Inr settings \<Longrightarrow>
   parseDepcfg env p = Ok p' \<Longrightarrow>
   \<exists>p1 p2. parseSettings env p1 settings = Ok p2"
  by (auto simp: parseDepcfg_def Let_def bindRes_Ok_iff split: sum.splits)

lemma parseDepcfg_rbac_absent:
  assumes "metakvSettings env = Inr sData" "jsonUnmarshal env sData = Inr settings"
    and "settings ''rbacuser'' = None \<or> settings ''rbacpass'' = None"
  shows "parseDepcfg env p \<noteq> Ok p'"
  using parseDepcfg_settings [OF assms(1,2)] assms(3)
    parseSettings_rbacuser_absent parseSettings_rbacpass_absent
  by blast

lemma parseDepcfg_log_level_absent:
  assumes "metakvSettings env = Inr sData" "jsonUnmarshal env sData = Inr settings"
    and "settings ''log_level'' = None"
  shows "parseDepcfg env p \<noteq> Ok p'"
  using parseDepcfg_settings [OF assms(1,2)] assms(3) parseSettings_log_level_absent
  by blast

lemma parseDepcfg_demo_defaults:
  "parseDepcfg (demoDepcfgEnv config
       [''rbacuser'' \<mapsto> JString u, ''rbacpass'' \<mapsto> JString pw, ''log_level'' \<mapsto> JString l]) p
     = Ok (p\<lparr>app := \<lparr>AppCode = cfg_appCode config, AppName = cfg_appName config,
                      AppState = ''undeployed'', AppVersion = cfg_appCode config,
                      LastDeploy = ''2017-10-31T00:00:00'',
                      ID = int (unat (cfg_handlerUUID config)),
                      Settings = [''rbacuser'' \<mapsto> JString u, ''rbacpass'' \<mapsto> JString pw,
                                  ''log_level'' \<mapsto> JString l]\<rparr>,
             auth := ''user:secret'', bucket := depcfg_sourceBucket (cfg_depCfg config),
             cfgData := ''descriptor'',
             metadatabucket := depcfg_metadataBucket (cfg_depCfg config),
             cleanupTimers := False, dcpStreamBoundary := ''everything'', logLevel := l,
             statsTickDuration := 5000, workerCount := 3, timerWorkerPoolSize := 3,
             socketWriteBatchSize := 100, skipTimerThreshold := 86400, rbacUser := u,
             rbacPass := pw, lcbInstCapacity := 5, enableRecursiveMutation := False,
             socketTimeout := 2000000000, vbOwnershipGiveUpRoutineCount := 3,
             vbOwnershipTakeoverRoutineCount := 3, executionTimeout := 1, fuzzOffset := 30,
             cppWorkerThrCount := 1, plasmaMemQuota := 256, xattrEntryPruneThreshold := 100,
             appLogPath := p_eventingDir p @ ''/'' @ p_appName p @ ''.log'',
             appLogMaxSize := 10485760, appLogMaxFiles := 10, curlTimeout := 500,
             workerQueueCap := 1000000, kvHostPorts := [''127.0.0.1:11210''],
             nsServerHostPort := ''127.0.0.1:'' @ nsServerPort p\<rparr>)"
  by (simp add: parseDepcfg_def applyDescriptor_def resolveAddresses_def Let_def demoDepcfgEnv_def
      parseSettings_defaults)










subsection \<open>Claim C8\<close>



subsection \<open>Claim C9\<close>

text \<open>
  C9. The code does not do what the claim says for the key \<^verbatim>\<open>log_level\<close>. Lines 76--80
  give \<^verbatim>\<open>p.logLevel\<close> the default \<^verbatim>\<open>INFO\<close> when the key is absent, but line 220 reads the key
  again with \<^verbatim>\<open>settings["log_level"].(string)\<close>, which panics on the nil interface: with both
  \<^verbatim>\<open>rbacuser\<close> and \<^verbatim>\<open>rbacpass\<close> present and every lookup of the environment succeeding, a
  settings document without \<^verbatim>\<open>log_level\<close> makes \<^verbatim>\<open>parseDepcfg\<close> panic; the same document
  with \<^verbatim>\<open>log_level\<close> loads with every documented default; without \<^verbatim>\<open>rbacuser\<close> or without
  \<^verbatim>\<open>rbacpass\<close> the call returns the error for the missing key.
\<close>

theorem parseDepcfg_log_level_absent_panics:
  "parseDepcfg (demoDepcfgEnv demoConfig [''rbacuser'' \<mapsto> JString ''u'', ''rbacpass'' \<mapsto> JString ''p''])
     demoProducer = Panic
   \<and> mapRes (\<lambda>q. (logLevel q, workerCount q, timerWorkerPoolSize q, lcbInstCapacity q,
                  socketWriteBatchSize q, skipTimerThreshold q, enableRecursiveMutation q,
                  cleanupTimers q, curlTimeout q, workerQueueCap q, appLogMaxSize q,
                  appLogMaxFiles q))
       (parseDepcfg (demoDepcfgEnv demoConfig
          [''rbacuser'' \<mapsto> JString ''u'', ''rbacpass'' \<mapsto> JString ''p'', ''log_level'' \<mapsto> JString ''INFO''])
          demoProducer)
       = Ok (''INFO'', 3, 3, 5, 100, 86400, False, False, 500, 1000000, 10485760, 10)
   \<and> parseDepcfg (demoDepcfgEnv demoConfig [''rbacpass'' \<mapsto> JString ''p'', ''log_level'' \<mapsto> JString ''INFO''])
       demoProducer = Err ''rbac username missing''
   \<and> parseDepcfg (demoDepcfgEnv demoConfig [''rbacuser'' \<mapsto> JString ''u'', ''log_level'' \<mapsto> JString ''INFO''])
       demoProducer = Err ''rbac password missing''"
proof -
  have "parseDepcfg (demoDepcfgEnv demoConfig [''rbacuser'' \<mapsto> JString ''u'', ''rbacpass'' \<mapsto> JString ''p''])
          demoProducer = Panic"
    by (simp add: parseDepcfg_def Let_def demoDepcfgEnv_def parseSettings_without_log_level)
  moreover have "parseDepcfg (demoDepcfgEnv demoConfig
          [''rbacpass'' \<mapsto> JString ''p'', ''log_level'' \<mapsto> JString ''INFO'']) demoProducer
        = Err ''rbac username missing''"
    by (simp add: parseDepcfg_def Let_def demoDepcfgEnv_def parseSettings_without_rbacuser)
  moreover have "parseDepcfg (demoDepcfgEnv demoConfig
          [''rbacuser'' \<mapsto> JString ''u'', ''log_level'' \<mapsto> JString ''INFO'']) demoProducer
        = Err ''rbac password missing''"
    by (simp add: parseDepcfg_def Let_def demoDepcfgEnv_def parseSettings_without_rbacpass)
  ultimately show ?thesis by (simp add: parseDepcfg_demo_defaults)
qed

end
